theory Spec2Isabelle
  imports Main "HOL-Library.Finite_Map" "HOL-Library.Code_Target_Nat"
begin

section \<open>JavaScript values used by AggregationSelect.tsx\<close>

text \<open>
  The file \<^verbatim>\<open>frontend/src/scenes/insights/filters/AggregationSelect.tsx\<close> holds two pure
  mapping functions, \<^verbatim>\<open>getHogQLValue\<close> and \<^verbatim>\<open>hogQLToFilterValue\<close>, two binding
  wrappers whose \<^verbatim>\<open>onChange\<close> handlers write to a store, and the shared component that
  builds the option list.

  A JavaScript \<^verbatim>\<open>number\<close> is a double. Every finite double is an integer or an odd
  integer divided by a power of two: \<open>Num i\<close> is the number value of the integer \<open>i\<close> and
  \<open>Frac i k\<close> the number value of \<open>i / 2^k\<close>, and there are \<^verbatim>\<open>NaN\<close> and the two
  infinities. The number value of a real is the real itself when it is a double, which is
  when it is \<open>m \<times> 2^e\<close> with \<open>\<bar>m\<bar> < 2^53\<close>, \<open>- 1074 \<le> e\<close> and a magnitude below
  \<open>2^1024\<close>; otherwise it is the double nearest to it, the one with the even significand
  of two, as for a numeric literal. The two zeros are not told apart: both print as
  \<^verbatim>\<open>0\<close>.

  A value of type \<^verbatim>\<open>T | undefined\<close> is a \<open>T option\<close>, with \<open>None\<close> for
  \<^verbatim>\<open>undefined\<close>. A property of an object literal is either absent (the key is not in
  the object) or present with a value, which may itself be \<^verbatim>\<open>undefined\<close>: the objects
  \<^verbatim>\<open>{}\<close> and \<^verbatim>\<open>{aggregationQuery: undefined}\<close> are different.
\<close>

datatype number = Num int | Frac int nat | NaN | Infinity | NegInfinity

datatype 'a field = Absent | Present 'a

datatype 'a nullable = Null | NotNull 'a

datatype error = TypeError

text \<open>The return type \<^verbatim>\<open>{ groupIndex?: number; aggregationQuery?: string }\<close>.\<close>

record descriptor =
  groupIndex :: "number field"
  aggregationQuery :: "string option field"

text \<open>
  Destructuring \<^verbatim>\<open>const { aggregationQuery, groupIndex } = d\<close> reads an absent property
  as \<^verbatim>\<open>undefined\<close>.
\<close>

definition read_groupIndex :: "descriptor \<Rightarrow> number option" where
  "read_groupIndex d = (case groupIndex d of Absent \<Rightarrow> None | Present n \<Rightarrow> Some n)"

definition read_aggregationQuery :: "descriptor \<Rightarrow> string option" where
  "read_aggregationQuery d = (case aggregationQuery d of Absent \<Rightarrow> None | Present q \<Rightarrow> q)"

section \<open>Strings and numbers\<close>

definition is_digit :: "char \<Rightarrow> bool" where
  "is_digit c \<longleftrightarrow> 48 \<le> (of_char c :: nat) \<and> (of_char c :: nat) \<le> 57"

definition digit_char :: "nat \<Rightarrow> char" where
  "digit_char d = char_of (48 + d)"

text \<open>The decimal digits of a natural number, most significant first, no leading zero.\<close>

fun decimal_acc :: "nat \<Rightarrow> string \<Rightarrow> string" where
  "decimal_acc n acc =
     (if n < 10 then digit_char n # acc
      else decimal_acc (n div 10) (digit_char (n mod 10) # acc))"

declare decimal_acc.simps [simp del]

definition decimal :: "nat \<Rightarrow> string" where
  "decimal n = decimal_acc n []"

text \<open>
  The number value of a non-negative integer \<open>x\<close>: \<open>x\<close> itself below \<open>2^53\<close>; otherwise
  \<open>x\<close> rounded to 53 significant bits, to the nearest and to the even one in a tie; and
  no finite number (\<open>None\<close>) when the rounded value reaches \<open>2^1024\<close>. (ECMAScript
  lets \<^verbatim>\<open>parseInt\<close> replace the decimal digits after the twentieth by zeros before
  rounding; the rounding here is of the exact value.)
\<close>

fun bit_length :: "nat \<Rightarrow> nat" where
  "bit_length n = (if n = 0 then 0 else Suc (bit_length (n div 2)))"

declare bit_length.simps [simp del]

definition to_double :: "nat \<Rightarrow> nat option" where
  "to_double x =
     (if x < 2 ^ 53 then Some x
      else
        let e = bit_length x - 53;
            q = x div 2 ^ e;
            r = x mod 2 ^ e;
            m = (if 2 ^ e < 2 * r \<or> (2 * r = 2 ^ e \<and> odd q) then q + 1 else q)
        in if 2 ^ 1024 \<le> m * 2 ^ e then None else Some (m * 2 ^ e))"

text \<open>
  \<^verbatim>\<open>Number.prototype.toString\<close> for a finite positive number, as ECMAScript defines it
  (Number::toString, radix 10): find integers \<open>n\<close>, \<open>k\<close> and \<open>s\<close> with \<open>k \<ge> 1\<close> and
  \<open>10^(k-1) \<le> s < 10^k\<close> such that \<open>s \<times> 10^(n-k)\<close> rounds to the number, with \<open>k\<close> as
  small as possible, and among several \<open>s\<close> the one nearest to the number (the even one of
  two); then print the \<open>k\<close> digits of \<open>s\<close> with zeros, a decimal point or an exponent
  according to \<open>n\<close>.

  The number value of \<open>m \<times> 2^e\<close>, for \<open>m \<ge> 0\<close>, is first written with a 53 bit
  significand, as \<open>M \<times> 2^E\<close> with \<open>2^52 \<le> M < 2^53\<close>, or with \<open>M < 2^52\<close> and
  \<open>E = - 1074\<close>: a double is only shifted, and any other value is rounded to the nearest
  such \<open>M\<close>, to the even one in a tie. The number value is zero when \<open>M = 0\<close> and
  infinite when \<open>971 < E\<close>.
\<close>

definition pw :: "int \<Rightarrow> int \<Rightarrow> int" where
  "pw b z = b ^ nat z"

definition normalise :: "int \<Rightarrow> int \<Rightarrow> int \<times> int" where
  "normalise m e =
     (let bl = int (bit_length (nat m));
          E = max (e + bl - 53) (- 1074)
      in if E \<le> e then (m * 2 ^ nat (e - E), E)
         else
           (let q = m div 2 ^ nat (E - e);
                r = m mod 2 ^ nat (E - e);
                M = (if 2 ^ nat (E - e) < 2 * r \<or> (2 * r = 2 ^ nat (E - e) \<and> odd q)
                     then q + 1 else q)
            in if M = 2 ^ 53 then (2 ^ 52, E + 1) else (M, E)))"

text \<open>
  \<open>t \<times> 10^P\<close> rounds to the double \<open>M \<times> 2^E\<close>: it lies between the midpoints to the
  neighbouring doubles, which are \<open>(4M - 2) \<times> 2^(E-2)\<close> (or \<open>(4M - 1) \<times> 2^(E-2)\<close> just
  above a power of two, where the doubles below are twice as dense) and
  \<open>(4M + 2) \<times> 2^(E-2)\<close>; a midpoint itself rounds to the double with the even
  significand. Both sides of a comparison are multiplied by the powers of 2 and 10 with
  negative exponent (\<open>pw b z\<close> is \<open>b^z\<close> for a positive \<open>z\<close>, and 1 otherwise).
\<close>

definition rounds_to :: "int \<Rightarrow> int \<Rightarrow> int \<Rightarrow> int \<Rightarrow> bool" where
  "rounds_to M E t P =
     (let F = E - 2;
          lo = (if M = 2 ^ 52 \<and> - 1074 < E then 4 * M - 1 else 4 * M - 2);
          hi = 4 * M + 2;
          v = t * pw 10 P * pw 2 (- F);
          lo' = lo * pw 2 F * pw 10 (- P);
          hi' = hi * pw 2 F * pw 10 (- P)
      in if even M then lo' \<le> v \<and> v \<le> hi' else lo' < v \<and> v < hi')"

text \<open>
  The decimal exponent \<open>n0\<close> of \<open>M \<times> 2^E\<close>: \<open>10^(n0-1) \<le> M \<times> 2^E < 10^n0\<close>. Below 1 it
  is found by counting the factors of 10 needed to reach 1 (at most 324 for a double).
\<close>

function leading_zeros :: "int \<Rightarrow> int \<Rightarrow> nat \<Rightarrow> nat" where
  "leading_zeros M D j =
     (if D \<le> M * 10 ^ j \<or> 400 \<le> j then j else leading_zeros M D (Suc j))"
  by pat_completeness auto
termination
  by (relation "measure (\<lambda>(M, D, j). 400 - j)") auto

declare leading_zeros.simps [simp del]

definition decimal_exponent :: "int \<Rightarrow> int \<Rightarrow> int" where
  "decimal_exponent M E =
     (if 0 \<le> E then int (length (decimal (nat (M * 2 ^ nat E))))
      else if 2 ^ nat (- E) \<le> M then int (length (decimal (nat (M div 2 ^ nat (- E)))))
      else 1 - int (leading_zeros M (2 ^ nat (- E)) 0))"

text \<open>
  The candidates with \<open>k\<close> digits: for \<open>n\<close> one of \<open>n0 - 1\<close>, \<open>n0\<close> and \<open>n0 + 1\<close>, the two
  \<open>s\<close> next to the number, when they have \<open>k\<close> digits and round to the number. A candidate
  is its distance to the number (in units of \<open>10^(n0-1-k) / 2^(E-2)\<close>), \<open>s\<close> and \<open>n\<close>.
\<close>

definition candidates :: "int \<Rightarrow> int \<Rightarrow> nat \<Rightarrow> int \<Rightarrow> (int \<times> int \<times> int) list" where
  "candidates M E k n0 =
     (let P0 = n0 - 1 - int k;
          F = E - 2;
          A = pw 10 P0 * pw 2 (- F);
          C = 4 * M * pw 2 F * pw 10 (- P0)
      in [(\<bar>s * 10 ^ j * A - C\<bar>, s, n0 - 1 + int j).
            j \<leftarrow> [0, 1, 2],
            s \<leftarrow> [C div (A * 10 ^ j), C div (A * 10 ^ j) + 1],
            10 ^ (k - 1) \<le> s \<and> s < 10 ^ k \<and> rounds_to M E (s * 10 ^ j) P0])"

fun closest :: "(int \<times> int \<times> int) list \<Rightarrow> (int \<times> int \<times> int) option" where
  "closest [] = None"
| "closest (c # cs) =
     (case closest cs of
        None \<Rightarrow> Some c
      | Some b \<Rightarrow>
          if fst c < fst b \<or> (fst c = fst b \<and> even (fst (snd c))) then Some c else Some b)"

fun shortest :: "int \<Rightarrow> int \<Rightarrow> int \<Rightarrow> nat list \<Rightarrow> (int \<times> int) option" where
  "shortest M E n0 [] = None"
| "shortest M E n0 (k # ks) =
     (case closest (candidates M E k n0) of
        Some c \<Rightarrow> Some (snd c)
      | None \<Rightarrow> shortest M E n0 ks)"

text \<open>Seventeen digits are enough for every double.\<close>

definition digits_for :: "int \<Rightarrow> int \<Rightarrow> (int \<times> int) option" where
  "digits_for M E =
     shortest M E (decimal_exponent M E)
       [1, 2, 3, 4, 5, 6, 7, 8, 9, 10, 11, 12, 13, 14, 15, 16, 17]"

text \<open>
  The digits \<open>ds\<close> of \<open>s\<close> and \<open>n\<close> as a string: \<open>n - k\<close> zeros after the digits when
  \<open>k \<le> n \<le> 21\<close>; a decimal point after \<open>n\<close> digits when \<open>0 < n \<le> 21\<close>; \<^verbatim>\<open>0.\<close> and
  \<open>- n\<close> zeros before the digits when \<open>- 6 < n \<le> 0\<close>; and otherwise the exponent
  \<open>n - 1\<close> with its sign, after the first digit and the others behind a decimal point.
\<close>

definition format_digits :: "string \<Rightarrow> int \<Rightarrow> string" where
  "format_digits ds n =
     (let k = int (length ds)
      in if k \<le> n \<and> n \<le> 21 then ds @ replicate (nat (n - k)) (CHR ''0'')
         else if 0 < n \<and> n \<le> 21 then take (nat n) ds @ ''.'' @ drop (nat n) ds
         else if - 6 < n \<and> n \<le> 0 then ''0.'' @ replicate (nat (- n)) (CHR ''0'') @ ds
         else
           (let c = n - 1;
                ex = (if 0 \<le> c then ''e+'' else ''e-'') @ decimal (nat \<bar>c\<bar>)
            in if k = 1 then ds @ ex else take 1 ds @ ''.'' @ drop 1 ds @ ex))"

definition render :: "(int \<times> int) option \<Rightarrow> string" where
  "render r =
     (case r of None \<Rightarrow> [] | Some c \<Rightarrow> format_digits (decimal (nat (fst c))) (snd c))"

definition print_double :: "int \<Rightarrow> int \<Rightarrow> string" where
  "print_double M E =
     (if M = 0 then ''0'' else if 971 < E then ''Infinity'' else render (digits_for M E))"

definition double_toString :: "int \<Rightarrow> int \<Rightarrow> string" where
  "double_toString m e = print_double (fst (normalise m e)) (snd (normalise m e))"

definition with_sign :: "int \<Rightarrow> string \<Rightarrow> string" where
  "with_sign i s = (if i < 0 \<and> s \<noteq> ''0'' then CHR ''-'' # s else s)"

text \<open>
  \<^verbatim>\<open>Number.prototype.toString\<close>, as the template literal
  \<^verbatim>\<open>`$group_${groupIndex}`\<close> applies it to a number. An integer below \<open>2^53\<close> is a
  double and is printed with all its digits, which are the digits \<open>s\<close> followed by the
  \<open>n - k\<close> zeros of the general rule; every other finite number goes through the general
  rule, with a minus sign before the digits of a negative number.
\<close>

definition number_toString :: "number \<Rightarrow> string" where
  "number_toString x =
     (case x of
        NaN \<Rightarrow> ''NaN''
      | Infinity \<Rightarrow> ''Infinity''
      | NegInfinity \<Rightarrow> ''-Infinity''
      | Num i \<Rightarrow>
          if \<bar>i\<bar> < 2 ^ 53 then
            (if i < 0 then CHR ''-'' # decimal (nat (- i)) else decimal (nat i))
          else with_sign i (double_toString \<bar>i\<bar> 0)
      | Frac i k \<Rightarrow> with_sign i (double_toString \<bar>i\<bar> (- int k)))"

text \<open>
  \<^verbatim>\<open>parseInt(string)\<close> with no radix: leading white space is dropped, a sign is read,
  a prefix \<^verbatim>\<open>0x\<close> or \<^verbatim>\<open>0X\<close> selects radix 16, and the longest run of digits of the
  radix is the mathematical value, of which the result is the number value, with the
  sign. With no digit the result is \<^verbatim>\<open>NaN\<close>. White space is the white space and line
  terminator code units below 256.
\<close>

definition is_whitespace :: "char \<Rightarrow> bool" where
  "is_whitespace c \<longleftrightarrow> (of_char c :: nat) \<in> {9, 10, 11, 12, 13, 32, 160}"

definition digit_of :: "nat \<Rightarrow> char \<Rightarrow> nat option" where
  "digit_of radix c =
     (let k = (of_char c :: nat);
          v = (if 48 \<le> k \<and> k \<le> 57 then Some (k - 48)
               else if 97 \<le> k \<and> k \<le> 122 then Some (k - 87)
               else if 65 \<le> k \<and> k \<le> 90 then Some (k - 55)
               else None)
      in case v of None \<Rightarrow> None | Some d \<Rightarrow> if d < radix then Some d else None)"

definition radix_value :: "nat \<Rightarrow> string \<Rightarrow> nat" where
  "radix_value radix Z =
     foldl (\<lambda>acc c. acc * radix + (case digit_of radix c of None \<Rightarrow> 0 | Some d \<Rightarrow> d)) 0 Z"

definition parseInt :: "string \<Rightarrow> number" where
  "parseInt inputString =
     (let S = dropWhile is_whitespace inputString;
          sign = (if take 1 S = ''-'' then - 1 else 1 :: int);
          S1 = (if take 1 S = ''+'' \<or> take 1 S = ''-'' then drop 1 S else S);
          hex = (take 2 S1 = ''0x'' \<or> take 2 S1 = ''0X'');
          R = (if hex then 16 else 10);
          S2 = (if hex then drop 2 S1 else S1);
          Z = takeWhile (\<lambda>c. digit_of R c \<noteq> None) S2
      in if Z = [] then NaN
         else
           (case to_double (radix_value R Z) of
              None \<Rightarrow> if sign < 0 then NegInfinity else Infinity
            | Some y \<Rightarrow> Num (sign * int y)))"

text \<open>
  \<^verbatim>\<open>String.prototype.replace(pattern, replacement)\<close> with a string pattern: the first
  occurrence of the pattern is replaced, and a string without the pattern is returned as
  it is. The replacement is taken literally (the source passes the empty string).
\<close>

fun replace :: "string \<Rightarrow> string \<Rightarrow> string \<Rightarrow> string" where
  "replace pat rep [] = (if pat = [] then rep else [])"
| "replace pat rep (c # cs) =
     (if take (length pat) (c # cs) = pat then rep @ drop (length pat) (c # cs)
      else c # replace pat rep cs)"

text \<open>
  A method call on a receiver of type \<^verbatim>\<open>string | undefined\<close> throws a
  \<^verbatim>\<open>TypeError\<close> when the receiver is \<^verbatim>\<open>undefined\<close>.
\<close>

definition replace_method :: "string option \<Rightarrow> string \<Rightarrow> string \<Rightarrow> error + string" where
  "replace_method receiver pat rep =
     (case receiver of None \<Rightarrow> Inl TypeError | Some s \<Rightarrow> Inr (replace pat rep s))"

text \<open>
  The test \<^verbatim>\<open>/^\$group_[0-9]+$/\<close>: the whole string is \<^verbatim>\<open>$group_\<close> followed by one
  or more of the digits 0 to 9. (Without the \<^verbatim>\<open>m\<close> flag, \<^verbatim>\<open>$\<close> is the end of the
  input only.)
\<close>

definition match_group :: "string \<Rightarrow> bool" where
  "match_group s \<longleftrightarrow>
     take 7 s = ''$group_'' \<and> drop 7 s \<noteq> [] \<and> list_all is_digit (drop 7 s)"

text \<open>
  \<^verbatim>\<open>value?.match(re)\<close> in a condition: \<^verbatim>\<open>undefined\<close> when the value is, which is
  falsy; otherwise the match array (truthy) or \<^verbatim>\<open>null\<close> (falsy).
\<close>

definition optional_match_group :: "string option \<Rightarrow> bool" where
  "optional_match_group v = (case v of None \<Rightarrow> False | Some s \<Rightarrow> match_group s)"

section \<open>The value codec\<close>

definition UNIQUE_USERS :: string where
  "UNIQUE_USERS = ''person_id''"

text \<open>
  \<^verbatim>\<open>getHogQLValue(groupIndex?, aggregationQuery?)\<close>, with \<open>g\<close> for the first
  parameter and \<open>q\<close> for the second (their names are the record's field names here).
  The second test is the truthiness of a \<^verbatim>\<open>string | undefined\<close>: defined and not
  empty.
\<close>

definition getHogQLValue :: "number option \<Rightarrow> string option \<Rightarrow> string" where
  "getHogQLValue g q =
     (case g of
        Some n \<Rightarrow> ''$group_'' @ number_toString n
      | None \<Rightarrow>
          (case q of
             Some e \<Rightarrow> if e \<noteq> [] then e else UNIQUE_USERS
           | None \<Rightarrow> UNIQUE_USERS))"

text \<open>\<^verbatim>\<open>hogQLToFilterValue(value?)\<close>, branch by branch.\<close>

definition hogQLToFilterValue :: "string option \<Rightarrow> error + descriptor" where
  "hogQLToFilterValue v =
     (if optional_match_group v then
        (case replace_method v ''$group_'' [] of
           Inl e \<Rightarrow> Inl e
         | Inr digits \<Rightarrow>
             Inr \<lparr>groupIndex = Present (parseInt digits), aggregationQuery = Absent\<rparr>)
      else if v = Some ''person_id'' then
        Inr \<lparr>groupIndex = Absent, aggregationQuery = Absent\<rparr>
      else
        Inr \<lparr>groupIndex = Absent, aggregationQuery = Present v\<rparr>)"

section \<open>Objects, the stores and the binding wrappers\<close>

text \<open>
  The query node and the legacy filters are plain objects: finite maps from property
  names to values. The wrappers never look inside them except through
  \<^verbatim>\<open>isFunnelsQuery\<close>, \<^verbatim>\<open>isFunnelsFilter\<close> (imported from other modules, parameters
  here) and the spread \<^verbatim>\<open>...\<close> of an object literal.
\<close>

datatype jsval =
    JUndefined
  | JNull
  | JBoolean bool
  | JNumber number
  | JString string
  | JObject "(string, jsval) fmap"

type_synonym jsobject = "(string, jsval) fmap"

definition number_or_undefined :: "number option \<Rightarrow> jsval" where
  "number_or_undefined x = (case x of None \<Rightarrow> JUndefined | Some n \<Rightarrow> JNumber n)"

definition string_or_undefined :: "string option \<Rightarrow> jsval" where
  "string_or_undefined x = (case x of None \<Rightarrow> JUndefined | Some s \<Rightarrow> JString s)"

text \<open>Member access \<^verbatim>\<open>obj.key\<close> on an object: \<^verbatim>\<open>undefined\<close> for a missing key.\<close>

definition member :: "jsobject \<Rightarrow> string \<Rightarrow> jsval" where
  "member obj k = (case fmlookup obj k of None \<Rightarrow> JUndefined | Some x \<Rightarrow> x)"

text \<open>
  The properties a spread \<^verbatim>\<open>...x\<close> copies into an object literal: those of an object,
  one per index for a string, none for \<^verbatim>\<open>undefined\<close>, \<^verbatim>\<open>null\<close>, a boolean or a
  number.
\<close>

definition own_properties :: "jsval \<Rightarrow> jsobject" where
  "own_properties x =
     (case x of
        JObject m \<Rightarrow> m
      | JString s \<Rightarrow>
          fmap_of_list (zip (map decimal [0..<length s]) (map (\<lambda>c. JString [c]) s))
      | _ \<Rightarrow> fmempty)"

text \<open>The calls a handler makes to the store, with the object it passes.\<close>

datatype action = UpdateQuerySource jsobject | SetFilters jsobject

text \<open>
  The \<^verbatim>\<open>onChange\<close> handler of \<^verbatim>\<open>AggregationSelectDataExploration\<close> (lines 64 to 74).
  An object literal \<^verbatim>\<open>{...x, k: v}\<close> is the spread's properties with \<open>k\<close> set to \<open>v\<close>.
  The component renders, and the handler exists, only when
  \<^verbatim>\<open>isInsightQueryNode(querySource)\<close> holds; the handler itself does not use that test.
  The result is the list of store calls the handler makes, or the error it throws.
\<close>

definition AggregationSelectDataExploration_onChange ::
  "(jsobject \<Rightarrow> bool) \<Rightarrow> jsobject \<Rightarrow> string option \<Rightarrow> error + action list" where
  "AggregationSelectDataExploration_onChange isFunnelsQuery querySource v =
     (case hogQLToFilterValue v of
        Inl e \<Rightarrow> Inl e
      | Inr d \<Rightarrow>
          (let aq = read_aggregationQuery d;
               gi = read_groupIndex d
           in if isFunnelsQuery querySource then
                Inr [UpdateQuerySource
                  (fmupd ''funnelsFilter''
                     (JObject
                        (fmupd ''funnel_aggregate_by_hogql'' (string_or_undefined aq)
                           (own_properties (member querySource ''funnelsFilter''))))
                     (fmupd ''aggregation_group_type_index'' (number_or_undefined gi)
                        fmempty))]
              else
                Inr [UpdateQuerySource
                  (fmupd ''aggregation_group_type_index'' (number_or_undefined gi)
                     fmempty)]))"

text \<open>The \<^verbatim>\<open>onChange\<close> handler of \<^verbatim>\<open>AggregationSelect\<close> (lines 93 to 107).\<close>

definition AggregationSelect_onChange ::
  "(jsobject \<Rightarrow> bool) \<Rightarrow> jsobject \<Rightarrow> string option \<Rightarrow> error + action list" where
  "AggregationSelect_onChange isFunnelsFilter filters v =
     (case hogQLToFilterValue v of
        Inl e \<Rightarrow> Inl e
      | Inr d \<Rightarrow>
          (let aq = read_aggregationQuery d;
               gi = read_groupIndex d
           in if isFunnelsFilter filters then
                Inr [SetFilters
                  (fmupd ''funnel_aggregate_by_hogql'' (string_or_undefined aq)
                     (fmupd ''aggregation_group_type_index'' (number_or_undefined gi)
                        (own_properties (JObject filters))))]
              else
                Inr [SetFilters
                  (fmupd ''aggregation_group_type_index'' (number_or_undefined gi)
                     (own_properties (JObject filters)))]))"

section \<open>The shared component\<close>

text \<open>
  \<^verbatim>\<open>AggregationSelectComponent\<close> reads the group types and the two access flags from
  the stores; they are parameters here. Of a group type only its
  \<^verbatim>\<open>group_type_index\<close> is used for the option values.
\<close>

record groupType =
  group_type_index :: number

text \<open>
  \<^verbatim>\<open>baseValues\<close> after lines 129 to 160: it starts as \<^verbatim>\<open>[UNIQUE_USERS]\<close>, the loop
  over the group types pushes one token each unless an access flag is set, and the
  session token is pushed when \<^verbatim>\<open>hogqlAvailable\<close> is truthy.
\<close>

definition baseValues ::
  "bool \<Rightarrow> bool \<Rightarrow> 'a groupType_scheme list \<Rightarrow> bool option \<Rightarrow> string list" where
  "baseValues needsUpgradeForGroups canStartUsingGroups groupTypes hogqlAvailable =
     (let b0 = [UNIQUE_USERS];
          b1 = (if needsUpgradeForGroups \<or> canStartUsingGroups then b0
                else foldl (\<lambda>b t. b @ [''$group_'' @ number_toString (group_type_index t)])
                       b0 groupTypes)
      in if hogqlAvailable = Some True then b1 @ [''properties.$session_id''] else b1)"

text \<open>
  The value of the custom-expression option (line 167):
  \<^verbatim>\<open>!value || baseValues.includes(value) ? '' : value\<close>.
\<close>

definition custom_option_value ::
  "bool \<Rightarrow> bool \<Rightarrow> 'a groupType_scheme list \<Rightarrow> bool option \<Rightarrow> string option \<Rightarrow> string" where
  "custom_option_value needsUpgradeForGroups canStartUsingGroups groupTypes hogqlAvailable v =
     (case v of
        None \<Rightarrow> []
      | Some s \<Rightarrow>
          if s = [] \<or> s \<in> set (baseValues needsUpgradeForGroups canStartUsingGroups
                                  groupTypes hogqlAvailable)
          then [] else s)"

text \<open>
  The handler given to the select control (lines 191 to 195):
  \<^verbatim>\<open>if (newValue !== null) { onChange(newValue) }\<close>. The new value is \<^verbatim>\<open>null\<close>, or
  not \<^verbatim>\<open>null\<close> and then a string or \<^verbatim>\<open>undefined\<close>, which the caller's \<^verbatim>\<open>onChange\<close>
  accepts. With no call, no action is dispatched.
\<close>

definition AggregationSelectComponent_onChange ::
  "(string option \<Rightarrow> error + action list) \<Rightarrow> string option nullable \<Rightarrow> error + action list"
  where
  "AggregationSelectComponent_onChange onChange newValue =
     (case newValue of Null \<Rightarrow> Inr [] | NotNull x \<Rightarrow> onChange x)"

section \<open>Decimal digits: printing and parsing\<close>

lemma decimal_acc_append: "decimal_acc n acc = decimal n @ acc"
proof (induction n arbitrary: acc rule: less_induct)
  case (less n)
  show ?case
  proof (cases "n < 10")
    case True
    then show ?thesis by (simp add: decimal_def decimal_acc.simps)
  next
    case False
    then have lt: "n div 10 < n" by simp
    have "decimal_acc n acc = decimal_acc (n div 10) (digit_char (n mod 10) # acc)"
      using False by (subst decimal_acc.simps) simp
    also have "\<dots> = decimal (n div 10) @ digit_char (n mod 10) # acc"
      by (rule less.IH [OF lt])
    finally have a: "decimal_acc n acc = decimal (n div 10) @ digit_char (n mod 10) # acc" .
    have "decimal n = decimal_acc (n div 10) [digit_char (n mod 10)]"
      using False unfolding decimal_def by (subst decimal_acc.simps) simp
    also have "\<dots> = decimal (n div 10) @ [digit_char (n mod 10)]"
      by (rule less.IH [OF lt])
    finally show ?thesis using a by simp
  qed
qed

lemma decimal_rec:
  "decimal n = (if n < 10 then [digit_char n] else decimal (n div 10) @ [digit_char (n mod 10)])"
proof (cases "n < 10")
  case True
  then show ?thesis by (simp add: decimal_def decimal_acc.simps)
next
  case False
  have "decimal n = decimal_acc (n div 10) [digit_char (n mod 10)]"
    using False unfolding decimal_def by (subst decimal_acc.simps) simp
  then show ?thesis using False by (simp add: decimal_acc_append)
qed

lemma of_char_digit_char: "d < 10 \<Longrightarrow> (of_char (digit_char d) :: nat) = 48 + d"
  by (simp add: digit_char_def)

lemma is_digit_digit_char: "d < 10 \<Longrightarrow> is_digit (digit_char d)"
  by (simp add: is_digit_def of_char_digit_char)

lemma digit_of_10: "digit_of 10 c = (if is_digit c then Some (of_char c - 48) else None)"
  by (auto simp: digit_of_def is_digit_def Let_def)

lemma digit_of_digit_char: "d < 10 \<Longrightarrow> digit_of 10 (digit_char d) = Some d"
  by (simp add: digit_of_10 is_digit_digit_char of_char_digit_char)

lemma decimal_not_Nil: "decimal n \<noteq> []"
  by (subst decimal_rec) simp

lemma decimal_digits: "list_all is_digit (decimal n)"
proof (induction n rule: less_induct)
  case (less n)
  show ?case
  proof (cases "n < 10")
    case True
    then show ?thesis by (subst decimal_rec) (simp add: is_digit_digit_char)
  next
    case False
    then have "list_all is_digit (decimal (n div 10))" by (intro less.IH) simp
    then show ?thesis using False by (subst decimal_rec) (simp add: is_digit_digit_char)
  qed
qed

lemma radix_value_snoc:
  "radix_value r (Z @ [c]) = radix_value r Z * r + (case digit_of r c of None \<Rightarrow> 0 | Some d \<Rightarrow> d)"
  by (simp add: radix_value_def)

lemma radix_value_decimal: "radix_value 10 (decimal n) = n"
proof (induction n rule: less_induct)
  case (less n)
  show ?case
  proof (cases "n < 10")
    case True
    then show ?thesis
      by (subst decimal_rec) (simp add: radix_value_def digit_of_digit_char)
  next
    case False
    then have "radix_value 10 (decimal (n div 10)) = n div 10" by (intro less.IH) simp
    then show ?thesis using False
      by (subst decimal_rec) (simp add: radix_value_snoc digit_of_digit_char)
  qed
qed

text \<open>The number value is exact below \<open>2^53\<close> and is missing from \<open>2^1024\<close> on.\<close>

lemma to_double_exact: "x < 2 ^ 53 \<Longrightarrow> to_double x = Some x"
  by (simp add: to_double_def)

lemma bit_length_upper: "x < 2 ^ bit_length x"
proof (induction x rule: less_induct)
  case (less x)
  show ?case
  proof (cases "x = 0")
    case True
    then show ?thesis by simp
  next
    case False
    then have "x div 2 < 2 ^ bit_length (x div 2)" by (intro less.IH) simp
    then have "x < 2 * 2 ^ bit_length (x div 2)" by linarith
    then show ?thesis using False by (subst bit_length.simps) simp
  qed
qed

lemma bit_length_lower: "0 < x \<Longrightarrow> 2 ^ (bit_length x - 1) \<le> x"
proof (induction x rule: less_induct)
  case (less x)
  show ?case
  proof (cases "x div 2 = 0")
    case True
    then have "bit_length x = 1"
      using less.prems by (subst bit_length.simps, subst bit_length.simps) simp
    then show ?thesis using less.prems by simp
  next
    case False
    then have h: "2 ^ (bit_length (x div 2) - 1) \<le> x div 2"
      using less.prems by (intro less.IH) simp_all
    have pos: "0 < bit_length (x div 2)"
      using False by (subst bit_length.simps) simp
    have bl: "bit_length x = Suc (bit_length (x div 2))"
      using less.prems by (subst bit_length.simps) simp
    have "2 ^ (bit_length x - 1) = 2 * 2 ^ (bit_length (x div 2) - 1)"
      using pos bl by (cases "bit_length (x div 2)") simp_all
    also have "\<dots> \<le> 2 * (x div 2)" using h by simp
    also have "\<dots> \<le> x" by simp
    finally show ?thesis .
  qed
qed

lemma to_double_overflow:
  assumes "2 ^ 1024 \<le> x"
  shows "to_double x = None"
proof -
  define e where "e = bit_length x - 53"
  define q where "q = x div 2 ^ e"
  define m where "m = (if 2 ^ e < 2 * (x mod 2 ^ e) \<or> (2 * (x mod 2 ^ e) = 2 ^ e \<and> odd q)
                       then q + 1 else q)"
  have big: "\<not> x < 2 ^ 53"
  proof -
    have "(2::nat) ^ 53 \<le> 2 ^ 1024" by (rule power_increasing) simp_all
    then show ?thesis using assms by linarith
  qed
  have pos: "0 < x" using assms by (simp add: order.strict_trans2)
  have "(2::nat) ^ 1024 < 2 ^ bit_length x"
    using assms bit_length_upper [of x] by linarith
  then have bl: "1024 < bit_length x"
    by (rule power_less_imp_less_exp [rotated]) simp
  then have e: "bit_length x - 1 = 52 + e" by (simp add: e_def)
  have "2 ^ 52 * 2 ^ e \<le> x"
    using bit_length_lower [OF pos] e by (simp add: power_add)
  then have "2 ^ 52 \<le> q"
    unfolding q_def by (simp add: less_eq_div_iff_mult_less_eq)
  moreover have "q \<le> m" by (simp add: m_def)
  ultimately have "2 ^ 52 * 2 ^ e \<le> m * 2 ^ e" by simp
  moreover have "(2::nat) ^ 1024 \<le> 2 ^ 52 * 2 ^ e"
  proof -
    have "(2::nat) ^ 1024 \<le> 2 ^ (52 + e)"
      using bl e by (intro power_increasing) simp_all
    then show ?thesis by (simp add: power_add)
  qed
  ultimately have "2 ^ 1024 \<le> m * 2 ^ e" by linarith
  then show ?thesis
    using big unfolding to_double_def Let_def e_def [symmetric] q_def [symmetric]
      m_def [symmetric]
    by simp
qed

text \<open>\<^verbatim>\<open>parseInt\<close> on a non-empty run of decimal digits reads all of it.\<close>

lemma is_digit_not_whitespace: "is_digit c \<Longrightarrow> \<not> is_whitespace c"
  by (auto simp: is_digit_def is_whitespace_def)

lemma takeWhile_all: "list_all P xs \<Longrightarrow> takeWhile P xs = xs"
  by (induction xs) auto

lemma parseInt_digits:
  assumes "ds \<noteq> []" and "list_all is_digit ds"
  shows "parseInt ds =
         (case to_double (radix_value 10 ds) of
            None \<Rightarrow> Infinity
          | Some y \<Rightarrow> Num (int y))"
proof -
  obtain c cs where ds: "ds = c # cs" using assms(1) by (cases ds) auto
  have c: "is_digit c" and cs: "list_all is_digit cs" using assms(2) ds by auto
  have ws: "dropWhile is_whitespace ds = ds"
    using c ds by (simp add: is_digit_not_whitespace)
  have sgn: "(take 1 ds = ''-'') = False" "(take 1 ds = ''+'') = False"
    using c ds by (auto simp: is_digit_def)
  have hex: "(take 2 ds = ''0x'') = False" "(take 2 ds = ''0X'') = False"
    using cs ds by (cases cs; auto simp: is_digit_def)+
  have tw: "takeWhile (\<lambda>c. digit_of 10 c \<noteq> None) ds = ds"
    using assms(2) by (intro takeWhile_all) (simp add: digit_of_10 list_all_iff)
  have "parseInt ds =
        (if ds = [] then NaN
         else case to_double (radix_value 10 ds) of
                None \<Rightarrow> if (1::int) < 0 then NegInfinity else Infinity
              | Some y \<Rightarrow> Num (1 * int y))"
    unfolding parseInt_def Let_def ws
    by (simp only: sgn hex tw if_False simp_thms)
  then show ?thesis using assms(1) by (simp split: option.split)
qed

lemma parseInt_digits_exact:
  assumes "ds \<noteq> []" and "list_all is_digit ds" and "radix_value 10 ds < 2 ^ 53"
  shows "parseInt ds = Num (int (radix_value 10 ds))"
  using parseInt_digits [OF assms(1,2)] to_double_exact [OF assms(3)] by simp

lemma parseInt_digits_overflow:
  assumes "ds \<noteq> []" and "list_all is_digit ds" and "2 ^ 1024 \<le> radix_value 10 ds"
  shows "parseInt ds = Infinity"
  using parseInt_digits [OF assms(1,2)] to_double_overflow [OF assms(3)] by simp

lemma parseInt_digits_cases:
  assumes "ds \<noteq> []" and "list_all is_digit ds"
  shows "(\<exists>k::nat. parseInt ds = Num (int k)) \<or> parseInt ds = Infinity"
  using parseInt_digits [OF assms] by (cases "to_double (radix_value 10 ds)") simp_all

lemma replace_prefix: "replace pat rep (pat @ s) = rep @ s"
proof (cases "pat @ s")
  case Nil
  then show ?thesis by simp
next
  case (Cons a l)
  have "take (length pat) (a # l) = pat" "drop (length pat) (a # l) = s"
    unfolding Cons [symmetric] by simp_all
  then show ?thesis unfolding Cons by simp
qed

lemma match_group_iff:
  "match_group s \<longleftrightarrow> (\<exists>ds. s = ''$group_'' @ ds \<and> ds \<noteq> [] \<and> list_all is_digit ds)"
proof
  assume m: "match_group s"
  then have "s = take 7 s @ drop 7 s" by simp
  with m show "\<exists>ds. s = ''$group_'' @ ds \<and> ds \<noteq> [] \<and> list_all is_digit ds"
    unfolding match_group_def by metis
next
  assume "\<exists>ds. s = ''$group_'' @ ds \<and> ds \<noteq> [] \<and> list_all is_digit ds"
  then show "match_group s" by (auto simp: match_group_def)
qed

lemma hogQLToFilterValue_group:
  assumes "ds \<noteq> []" and "list_all is_digit ds"
  shows "hogQLToFilterValue (Some (''$group_'' @ ds))
         = Inr \<lparr>groupIndex = Present (parseInt ds), aggregationQuery = Absent\<rparr>"
proof -
  have m: "match_group (''$group_'' @ ds)"
    using assms by (auto simp: match_group_iff)
  have r: "replace ''$group_'' [] (''$group_'' @ ds) = ds"
    using replace_prefix [of "''$group_''" "[]" ds] by simp
  show ?thesis
    unfolding hogQLToFilterValue_def optional_match_group_def replace_method_def
    using m r by simp
qed

text \<open>The three outcomes of \<^verbatim>\<open>hogQLToFilterValue\<close>.\<close>

lemma hogQLToFilterValue_no_match:
  "\<not> optional_match_group v \<Longrightarrow>
   hogQLToFilterValue v =
     (if v = Some ''person_id'' then Inr \<lparr>groupIndex = Absent, aggregationQuery = Absent\<rparr>
      else Inr \<lparr>groupIndex = Absent, aggregationQuery = Present v\<rparr>)"
  by (simp add: hogQLToFilterValue_def)

lemma person_id_no_match: "\<not> match_group ''person_id''"
  by (simp add: match_group_def)

lemma empty_no_match: "\<not> match_group []"
  by (simp add: match_group_def)

lemma hogQLToFilterValue_match:
  assumes "match_group s"
  shows "hogQLToFilterValue (Some s) =
         Inr \<lparr>groupIndex = Present (parseInt (drop 7 s)), aggregationQuery = Absent\<rparr>"
proof -
  have s: "s = ''$group_'' @ drop 7 s"
    using assms unfolding match_group_def by (metis append_take_drop_id)
  have d: "drop 7 s \<noteq> []" "list_all is_digit (drop 7 s)"
    using assms unfolding match_group_def by simp_all
  show ?thesis using hogQLToFilterValue_group [OF d] s by simp
qed

lemma hogQLToFilterValue_Some_cases:
  "hogQLToFilterValue (Some s) =
     (if match_group s then
        Inr \<lparr>groupIndex = Present (parseInt (drop 7 s)), aggregationQuery = Absent\<rparr>
      else if s = ''person_id'' then Inr \<lparr>groupIndex = Absent, aggregationQuery = Absent\<rparr>
      else Inr \<lparr>groupIndex = Absent, aggregationQuery = Present (Some s)\<rparr>)"
proof (cases "match_group s")
  case True
  then show ?thesis by (simp add: hogQLToFilterValue_match)
next
  case False
  then have "\<not> optional_match_group (Some s)" by (simp add: optional_match_group_def)
  then show ?thesis using False by (simp add: hogQLToFilterValue_no_match)
qed

lemma hogQLToFilterValue_None:
  "hogQLToFilterValue None = Inr \<lparr>groupIndex = Absent, aggregationQuery = Present None\<rparr>"
  by (simp add: hogQLToFilterValue_def optional_match_group_def)

lemma getHogQLValue_Num:
  "0 \<le> n \<Longrightarrow> n < 2 ^ 53 \<Longrightarrow>
   getHogQLValue (Some (Num n)) q = ''$group_'' @ decimal (nat n)"
  by (simp add: getHogQLValue_def number_toString_def)

text \<open>The option values and the two handlers, in closed form.\<close>

lemma getHogQLValue_Some: "getHogQLValue (Some n) q = ''$group_'' @ number_toString n"
  by (simp add: getHogQLValue_def)

lemma digit_char_simps:
  "digit_char 0 = CHR ''0''" "digit_char 1 = CHR ''1''" "digit_char 2 = CHR ''2''"
  "digit_char 3 = CHR ''3''" "digit_char 4 = CHR ''4''" "digit_char 5 = CHR ''5''"
  "digit_char 6 = CHR ''6''" "digit_char 7 = CHR ''7''" "digit_char 8 = CHR ''8''"
  "digit_char 9 = CHR ''9''" "digit_char (Suc 0) = CHR ''1''"
  by code_simp+

lemma number_toString_small:
  "number_toString (Num 0) = ''0''"
  "number_toString (Num 1) = ''1''"
  "number_toString (Num 2) = ''2''"
  "number_toString (Num 3) = ''3''"
  "number_toString (Num 7) = ''7''"
  "number_toString (Num 12) = ''12''"
  "number_toString (Num (- 1)) = ''-1''"
  by (simp_all add: number_toString_def decimal_def decimal_acc.simps digit_char_simps)

text \<open>The general rule, evaluated.\<close>

lemmas toString_eval =
  double_toString_def print_double_def digits_for_def render_def normalise_def rounds_to_def
  decimal_exponent_def candidates_def format_digits_def pw_def bit_length.simps
  leading_zeros.simps decimal_def decimal_acc.simps digit_char_simps Let_def

lemma double_toString_12: "double_toString 12 0 = ''12''"
  by (simp add: toString_eval)

lemma double_toString_120: "double_toString 120 0 = ''120''"
  by (simp add: toString_eval)

lemma double_toString_3_halves: "double_toString 3 (- 1) = ''1.5''"
  by (simp add: toString_eval)

lemma double_toString_tenth: "double_toString 3602879701896397 (- 55) = ''0.1''"
  by (simp add: toString_eval)

lemma double_toString_1e21: "double_toString (10 ^ 21) 0 = ''1e+21''"
  by (simp add: toString_eval)

lemma double_toString_2_64:
  "double_toString 18446744073709551616 0 = ''18446744073709552000''"
  by (simp add: toString_eval) (simp_all add: eval_nat_numeral)

text \<open>
  A value that is not a double is printed as the double nearest to it: \<open>2^53 + 3\<close> as
  \<open>2^53 + 4\<close>, and \<open>2^1024\<close> as \<^verbatim>\<open>Infinity\<close>.
\<close>

lemma double_toString_rounded:
  "double_toString 9007199254740995 0 = ''9007199254740996''"
  by (simp add: toString_eval)

lemma double_toString_overflow: "double_toString (2 ^ 1024) 0 = ''Infinity''"
  by (simp add: double_toString_def print_double_def normalise_def bit_length.simps Let_def)

lemma number_toString_large:
  "number_toString (Num (10 ^ 21)) = ''1e+21''"
  "number_toString (Num 18446744073709551616) = ''18446744073709552000''"
  "number_toString (Frac 3 1) = ''1.5''"
  "number_toString (Frac (- 3) 1) = ''-1.5''"
  "number_toString (Num 9007199254740995) = ''9007199254740996''"
  "number_toString (Num (2 ^ 1024)) = ''Infinity''"
  using double_toString_1e21 double_toString_2_64 double_toString_3_halves
    double_toString_rounded double_toString_overflow
  by (simp_all add: number_toString_def with_sign_def)

lemma number_toString_safe:
  "0 \<le> i \<and> i < 2 ^ 53 \<Longrightarrow> number_toString (Num i) = decimal (nat i)"
  by (simp add: number_toString_def)

lemma digit_char_not_zero: "0 < d \<Longrightarrow> d < 10 \<Longrightarrow> digit_char d \<noteq> CHR ''0''"
proof
  assume d: "0 < d" "d < 10" and e: "digit_char d = CHR ''0''"
  have "(of_char (digit_char d) :: nat) = 48 + d"
    using d by (simp add: of_char_digit_char)
  then show False using d e by simp
qed

lemma decimal_hd: "0 < n \<Longrightarrow> hd (decimal n) \<noteq> CHR ''0''"
proof (induction n rule: less_induct)
  case (less n)
  show ?case
  proof (cases "n < 10")
    case True
    then show ?thesis
      using less.prems by (subst decimal_rec) (simp add: digit_char_not_zero)
  next
    case False
    then have "hd (decimal (n div 10)) \<noteq> CHR ''0''"
      by (intro less.IH) simp_all
    then show ?thesis
      using False by (subst decimal_rec) (simp add: decimal_not_Nil)
  qed
qed

lemma decimal_0: "decimal 0 = ''0''"
  by (subst decimal_rec) (simp add: digit_char_simps)

lemma decimal_canonical:
  "decimal n \<noteq> [] \<and> list_all is_digit (decimal n) \<and> radix_value 10 (decimal n) = n
   \<and> (hd (decimal n) = CHR ''0'' \<longrightarrow> decimal n = ''0'')"
proof -
  have "hd (decimal n) = CHR ''0'' \<longrightarrow> decimal n = ''0''"
    using decimal_hd [of n] decimal_0 by (cases "n = 0") simp_all
  then show ?thesis
    using decimal_not_Nil [of n] decimal_digits [of n] radix_value_decimal [of n] by blast
qed

lemma foldl_snoc_map: "foldl (\<lambda>b t. b @ [f t]) b0 ts = b0 @ map f ts"
  by (induction ts arbitrary: b0) simp_all

lemma baseValues_eq:
  "baseValues nu cs gts ha =
     [''person_id'']
     @ (if nu \<or> cs then []
        else map (\<lambda>t. ''$group_'' @ number_toString (group_type_index t)) gts)
     @ (if ha = Some True then [''properties.$session_id''] else [])"
  by (simp add: baseValues_def UNIQUE_USERS_def foldl_snoc_map Let_def)

lemma hogQLToFilterValue_returns: "\<exists>d. hogQLToFilterValue v = Inr d"
  by (cases v) (simp_all add: hogQLToFilterValue_None hogQLToFilterValue_Some_cases)

lemma onChange_DataExploration_eq:
  assumes "hogQLToFilterValue v = Inr d"
  shows "AggregationSelectDataExploration_onChange isFunnelsQuery querySource v =
     Inr [UpdateQuerySource
       (if isFunnelsQuery querySource then
          fmupd ''funnelsFilter''
            (JObject (fmupd ''funnel_aggregate_by_hogql''
               (string_or_undefined (read_aggregationQuery d))
               (own_properties (member querySource ''funnelsFilter''))))
            (fmupd ''aggregation_group_type_index'' (number_or_undefined (read_groupIndex d))
               fmempty)
        else fmupd ''aggregation_group_type_index'' (number_or_undefined (read_groupIndex d))
               fmempty)]"
  using assms by (simp add: AggregationSelectDataExploration_onChange_def Let_def)

lemma onChange_legacy_eq:
  assumes "hogQLToFilterValue v = Inr d"
  shows "AggregationSelect_onChange isFunnelsFilter filters v =
     Inr [SetFilters
       (if isFunnelsFilter filters then
          fmupd ''funnel_aggregate_by_hogql'' (string_or_undefined (read_aggregationQuery d))
            (fmupd ''aggregation_group_type_index'' (number_or_undefined (read_groupIndex d))
               filters)
        else fmupd ''aggregation_group_type_index'' (number_or_undefined (read_groupIndex d))
               filters)]"
  using assms by (simp add: AggregationSelect_onChange_def Let_def own_properties_def)

text \<open>Facts that evaluate the codec on a string literal.\<close>

lemmas decode_literal =
  hogQLToFilterValue_Some_cases match_group_def is_digit_def parseInt_digits_exact
  radix_value_def digit_of_def

lemma decode_distinct_id:
  "hogQLToFilterValue (Some ''distinct_id'')
   = Inr \<lparr>groupIndex = Absent, aggregationQuery = Present (Some ''distinct_id'')\<rparr>"
  by (simp add: decode_literal)

lemma decode_group_12:
  "hogQLToFilterValue (Some ''$group_12'')
   = Inr \<lparr>groupIndex = Present (Num 12), aggregationQuery = Absent\<rparr>"
  by (simp add: decode_literal)

text \<open>A run of digits followed by zeros, and the size of a run of digits.\<close>

lemma radix_value_zeros:
  "radix_value 10 (ds @ replicate n (CHR ''0'')) = radix_value 10 ds * 10 ^ n"
proof (induction n)
  case 0
  then show ?case by simp
next
  case (Suc n)
  have "ds @ replicate (Suc n) (CHR ''0'') = (ds @ replicate n (CHR ''0'')) @ [CHR ''0'']"
    by (simp add: replicate_append_same)
  then show ?case
    using Suc by (simp only: radix_value_snoc) (simp add: digit_of_def)
qed

lemma radix_value_less: "list_all is_digit ds \<Longrightarrow> radix_value 10 ds < 10 ^ length ds"
proof (induction ds rule: rev_induct)
  case Nil
  then show ?case by (simp add: radix_value_def)
next
  case (snoc c ds)
  then have "radix_value 10 ds < 10 ^ length ds" and c: "is_digit c" by simp_all
  then have "radix_value 10 ds * 10 + 9 < 10 ^ length ds * 10" by linarith
  moreover have "(case digit_of 10 c of None \<Rightarrow> 0 | Some d \<Rightarrow> d) \<le> 9"
    using c by (auto simp: digit_of_10 is_digit_def)
  ultimately show ?case by (simp add: radix_value_snoc)
qed

section \<open>Properties of the codec\<close>

text \<open>
  C3. For every group index \<open>g\<close> and aggregation query \<open>q\<close>, \<^verbatim>\<open>getHogQLValue\<close> returns
  \<^verbatim>\<open>"$group_" + g\<close> when \<open>g\<close> is present, whatever \<open>q\<close> is; otherwise it returns \<open>q\<close>
  verbatim when \<open>q\<close> is a non-empty string; otherwise it returns \<^verbatim>\<open>"person_id"\<close>. In
  particular \<^verbatim>\<open>getHogQLValue(undefined, undefined)\<close> is \<^verbatim>\<open>"person_id"\<close>.

  \<^verbatim>\<open>"$group_" + g\<close> is the prefix followed by \<open>g\<close> as JavaScript prints it. For a
  non-negative integer below \<open>2^53\<close> these are its decimal digits: a non-empty string of
  digits whose value is \<open>g\<close> and which starts with \<^verbatim>\<open>0\<close> only when it is \<^verbatim>\<open>0\<close> itself.
  The indices 0, 3, 12 and -1, the fraction 1.5, the large numbers \<open>10^21\<close> and \<open>2^64\<close>,
  and \<^verbatim>\<open>NaN\<close> and \<^verbatim>\<open>Infinity\<close> are printed as JavaScript prints them.
\<close>

theorem getHogQLValue_cases:
  "getHogQLValue (Some n) q = ''$group_'' @ number_toString n
   \<and> (0 \<le> i \<and> i < 2 ^ 53 \<longrightarrow>
        (\<exists>ds. getHogQLValue (Some (Num i)) q = ''$group_'' @ ds
           \<and> ds \<noteq> [] \<and> list_all is_digit ds \<and> radix_value 10 ds = nat i
           \<and> (hd ds = CHR ''0'' \<longrightarrow> ds = ''0'')))
   \<and> getHogQLValue (Some (Num 0)) q = ''$group_0''
   \<and> getHogQLValue (Some (Num 3)) q = ''$group_3''
   \<and> getHogQLValue (Some (Num 12)) q = ''$group_12''
   \<and> getHogQLValue (Some (Num (- 1))) q = ''$group_-1''
   \<and> getHogQLValue (Some (Frac 3 1)) q = ''$group_1.5''
   \<and> getHogQLValue (Some (Num (10 ^ 21))) q = ''$group_1e+21''
   \<and> getHogQLValue (Some (Num 18446744073709551616)) q = ''$group_18446744073709552000''
   \<and> getHogQLValue (Some NaN) q = ''$group_NaN''
   \<and> getHogQLValue (Some Infinity) q = ''$group_Infinity''
   \<and> getHogQLValue None (Some e) = (if e = [] then ''person_id'' else e)
   \<and> getHogQLValue None None = ''person_id''"
proof (intro conjI impI)
  show "getHogQLValue (Some n) q = ''$group_'' @ number_toString n"
    by (rule getHogQLValue_Some)
next
  assume i: "0 \<le> i \<and> i < 2 ^ 53"
  then have "getHogQLValue (Some (Num i)) q = ''$group_'' @ decimal (nat i)"
    by (simp only: getHogQLValue_Some number_toString_safe)
  then show "\<exists>ds. getHogQLValue (Some (Num i)) q = ''$group_'' @ ds
           \<and> ds \<noteq> [] \<and> list_all is_digit ds \<and> radix_value 10 ds = nat i
           \<and> (hd ds = CHR ''0'' \<longrightarrow> ds = ''0'')"
    using decimal_canonical [of "nat i"] by blast
next
  show "getHogQLValue (Some (Num 0)) q = ''$group_0''"
    by (simp only: getHogQLValue_Some number_toString_small) simp
  show "getHogQLValue (Some (Num 3)) q = ''$group_3''"
    by (simp only: getHogQLValue_Some number_toString_small) simp
  show "getHogQLValue (Some (Num 12)) q = ''$group_12''"
    by (simp only: getHogQLValue_Some number_toString_small) simp
  show "getHogQLValue (Some (Num (- 1))) q = ''$group_-1''"
    by (simp only: getHogQLValue_Some number_toString_small) simp
  show "getHogQLValue (Some (Frac 3 1)) q = ''$group_1.5''"
    by (simp only: getHogQLValue_Some number_toString_large) simp
  show "getHogQLValue (Some (Num (10 ^ 21))) q = ''$group_1e+21''"
    by (simp only: getHogQLValue_Some number_toString_large) simp
  show "getHogQLValue (Some (Num 18446744073709551616)) q = ''$group_18446744073709552000''"
    by (simp only: getHogQLValue_Some number_toString_large) simp
  show "getHogQLValue (Some NaN) q = ''$group_NaN''"
    by (simp add: getHogQLValue_Some number_toString_def)
  show "getHogQLValue (Some Infinity) q = ''$group_Infinity''"
    by (simp add: getHogQLValue_Some number_toString_def)
  show "getHogQLValue None (Some e) = (if e = [] then ''person_id'' else e)"
    by (simp add: getHogQLValue_def UNIQUE_USERS_def)
  show "getHogQLValue None None = ''person_id''"
    by (simp add: getHogQLValue_def UNIQUE_USERS_def)
qed

theorem getHogQLValue_cases_witness:
  "getHogQLValue (Some (Num 12)) (Some ''distinct_id'') = ''$group_12''
   \<and> (\<exists>ds. getHogQLValue (Some (Num 12)) (Some ''distinct_id'') = ''$group_'' @ ds
         \<and> list_all is_digit ds \<and> radix_value 10 ds = nat 12)"
proof -
  have "0 \<le> (12::int) \<and> (12::int) < 2 ^ 53" by simp
  with getHogQLValue_cases [where i = 12 and q = "Some ''distinct_id''"]
  show ?thesis by blast
qed

text \<open>
  C1, as the specification states it: for every \<open>g\<close> and \<open>q\<close>, decoding
  \<^verbatim>\<open>getHogQLValue(g, q)\<close> gives \<^verbatim>\<open>{groupIndex: g}\<close> when \<open>g\<close> is defined,
  \<^verbatim>\<open>{aggregationQuery: q}\<close> when \<open>g\<close> is undefined and \<open>q\<close> is a non-empty string, and
  \<^verbatim>\<open>{}\<close> otherwise. This fails where the encoded string is read back by an earlier
  branch of \<^verbatim>\<open>hogQLToFilterValue\<close>: the query \<^verbatim>\<open>"person_id"\<close> decodes to \<^verbatim>\<open>{}\<close>, and
  the group index \<open>-1\<close> is encoded as \<^verbatim>\<open>"$group_-1"\<close>, which the digit pattern rejects,
  so that it decodes to a custom expression.
\<close>

theorem decode_encode_counterexample:
  "hogQLToFilterValue (Some (getHogQLValue None (Some ''person_id'')))
     = Inr \<lparr>groupIndex = Absent, aggregationQuery = Absent\<rparr>
   \<and> hogQLToFilterValue (Some (getHogQLValue None (Some ''person_id'')))
     \<noteq> Inr \<lparr>groupIndex = Absent, aggregationQuery = Present (Some ''person_id'')\<rparr>
   \<and> hogQLToFilterValue (Some (getHogQLValue (Some (Num (- 1))) None))
     = Inr \<lparr>groupIndex = Absent, aggregationQuery = Present (Some ''$group_-1'')\<rparr>
   \<and> hogQLToFilterValue (Some (getHogQLValue (Some (Num (- 1))) None))
     \<noteq> Inr \<lparr>groupIndex = Present (Num (- 1)), aggregationQuery = Absent\<rparr>"
proof -
  have a: "getHogQLValue None (Some ''person_id'') = ''person_id''"
    by (simp add: getHogQLValue_def)
  have b: "getHogQLValue (Some (Num (- 1))) None = ''$group_-1''"
    by (simp only: getHogQLValue_Some number_toString_small) simp
  show ?thesis
    unfolding a b by (simp add: decode_literal)
qed

text \<open>
  C1, amended: decoding \<^verbatim>\<open>getHogQLValue(g, q)\<close> gives \<^verbatim>\<open>{groupIndex: g}\<close> when \<open>g\<close> is a
  non-negative safe integer (below \<open>2^53\<close>), whatever \<open>q\<close> is. When \<open>g\<close> is undefined:
  it gives \<^verbatim>\<open>{aggregationQuery: q}\<close> when \<open>q\<close> is a non-empty string other than
  \<^verbatim>\<open>"person_id"\<close> that does not have the form \<^verbatim>\<open>$group_\<close> followed by digits; it gives
  \<^verbatim>\<open>{}\<close> when \<open>q\<close> is undefined, empty or \<^verbatim>\<open>"person_id"\<close>; and it gives the group index
  that \<^verbatim>\<open>parseInt\<close> reads from the digits when \<open>q\<close> has the form \<^verbatim>\<open>$group_\<close> followed
  by digits.
\<close>

theorem decode_encode_round_trip:
  "(0 \<le> n \<and> n < 2 ^ 53 \<longrightarrow>
      hogQLToFilterValue (Some (getHogQLValue (Some (Num n)) q))
        = Inr \<lparr>groupIndex = Present (Num n), aggregationQuery = Absent\<rparr>)
   \<and> (e \<noteq> [] \<and> e \<noteq> ''person_id'' \<and> \<not> match_group e \<longrightarrow>
      hogQLToFilterValue (Some (getHogQLValue None (Some e)))
        = Inr \<lparr>groupIndex = Absent, aggregationQuery = Present (Some e)\<rparr>)
   \<and> (q = None \<or> q = Some [] \<or> q = Some ''person_id'' \<longrightarrow>
      hogQLToFilterValue (Some (getHogQLValue None q))
        = Inr \<lparr>groupIndex = Absent, aggregationQuery = Absent\<rparr>)
   \<and> (match_group e \<longrightarrow>
      hogQLToFilterValue (Some (getHogQLValue None (Some e)))
        = Inr \<lparr>groupIndex = Present (parseInt (drop 7 e)), aggregationQuery = Absent\<rparr>)"
proof (intro conjI impI)
  assume n: "0 \<le> n \<and> n < 2 ^ 53"
  have d: "decimal (nat n) \<noteq> []" "list_all is_digit (decimal (nat n))"
    by (simp_all add: decimal_not_Nil decimal_digits)
  have "nat n < 2 ^ 53" using n by (simp add: nat_less_iff)
  then have "parseInt (decimal (nat n)) = Num (int (nat n))"
    using parseInt_digits_exact [OF d] by (simp add: radix_value_decimal)
  then have "hogQLToFilterValue (Some (''$group_'' @ decimal (nat n)))
        = Inr \<lparr>groupIndex = Present (Num n), aggregationQuery = Absent\<rparr>"
    using hogQLToFilterValue_group [OF d] n by simp
  then show "hogQLToFilterValue (Some (getHogQLValue (Some (Num n)) q))
        = Inr \<lparr>groupIndex = Present (Num n), aggregationQuery = Absent\<rparr>"
    using n by (simp add: getHogQLValue_Num)
next
  assume e: "e \<noteq> [] \<and> e \<noteq> ''person_id'' \<and> \<not> match_group e"
  then have "getHogQLValue None (Some e) = e" by (simp add: getHogQLValue_def)
  then show "hogQLToFilterValue (Some (getHogQLValue None (Some e)))
        = Inr \<lparr>groupIndex = Absent, aggregationQuery = Present (Some e)\<rparr>"
    using e by (simp add: hogQLToFilterValue_Some_cases)
next
  assume "q = None \<or> q = Some [] \<or> q = Some ''person_id''"
  then have "getHogQLValue None q = ''person_id''"
    by (auto simp: getHogQLValue_def UNIQUE_USERS_def)
  then show "hogQLToFilterValue (Some (getHogQLValue None q))
        = Inr \<lparr>groupIndex = Absent, aggregationQuery = Absent\<rparr>"
    by (simp add: hogQLToFilterValue_Some_cases person_id_no_match)
next
  assume m: "match_group e"
  then have "e \<noteq> []" using empty_no_match by auto
  then have "getHogQLValue None (Some e) = e" by (simp add: getHogQLValue_def)
  then show "hogQLToFilterValue (Some (getHogQLValue None (Some e)))
        = Inr \<lparr>groupIndex = Present (parseInt (drop 7 e)), aggregationQuery = Absent\<rparr>"
    using hogQLToFilterValue_match [OF m] by simp
qed

theorem decode_encode_round_trip_witness:
  "hogQLToFilterValue (Some (getHogQLValue (Some (Num 3)) (Some ''distinct_id'')))
     = Inr \<lparr>groupIndex = Present (Num 3), aggregationQuery = Absent\<rparr>
   \<and> hogQLToFilterValue (Some (getHogQLValue None (Some ''distinct_id'')))
     = Inr \<lparr>groupIndex = Absent, aggregationQuery = Present (Some ''distinct_id'')\<rparr>
   \<and> hogQLToFilterValue (Some (getHogQLValue None None))
     = Inr \<lparr>groupIndex = Absent, aggregationQuery = Absent\<rparr>
   \<and> hogQLToFilterValue (Some (getHogQLValue None (Some ''$group_12'')))
     = Inr \<lparr>groupIndex = Present (Num 12), aggregationQuery = Absent\<rparr>"
proof -
  have a: "(0::int) \<le> 3 \<and> (3::int) < 2 ^ 53" by simp
  have b: "''distinct_id'' \<noteq> [] \<and> ''distinct_id'' \<noteq> ''person_id'' \<and> \<not> match_group ''distinct_id''"
    by (simp add: match_group_def)
  have c: "(None :: string option) = None \<or> None = Some [] \<or> None = Some ''person_id''" by simp
  have d: "match_group ''$group_12''" by (simp add: match_group_def is_digit_def)
  have v: "parseInt (drop 7 ''$group_12'') = Num 12"
    by (simp add: decode_literal)
  have 1: "hogQLToFilterValue (Some (getHogQLValue (Some (Num 3)) (Some ''distinct_id'')))
     = Inr \<lparr>groupIndex = Present (Num 3), aggregationQuery = Absent\<rparr>"
    using decode_encode_round_trip [of 3 "Some ''distinct_id''" "''distinct_id''"] a by blast
  have 2: "hogQLToFilterValue (Some (getHogQLValue None (Some ''distinct_id'')))
     = Inr \<lparr>groupIndex = Absent, aggregationQuery = Present (Some ''distinct_id'')\<rparr>"
    using decode_encode_round_trip [of 3 "Some ''distinct_id''" "''distinct_id''"] b by blast
  have 3: "hogQLToFilterValue (Some (getHogQLValue None None))
     = Inr \<lparr>groupIndex = Absent, aggregationQuery = Absent\<rparr>"
    using decode_encode_round_trip [of 0 None "''$group_12''"] c by blast
  have 4: "hogQLToFilterValue (Some (getHogQLValue None (Some ''$group_12'')))
     = Inr \<lparr>groupIndex = Present (Num 12), aggregationQuery = Absent\<rparr>"
    using decode_encode_round_trip [of 0 None "''$group_12''"] d v by simp
  show ?thesis using 1 2 3 4 by blast
qed

text \<open>
  C2. For every input \<open>v\<close>, \<^verbatim>\<open>hogQLToFilterValue\<close> returns \<^verbatim>\<open>{groupIndex: N}\<close> exactly
  when \<open>v\<close> is \<^verbatim>\<open>$group_\<close> followed by one or more digits, and then \<open>N\<close> is what
  \<^verbatim>\<open>parseInt\<close> reads from the digits, their decimal value when it is below \<open>2^53\<close>; it
  returns \<^verbatim>\<open>{}\<close>, both fields absent, exactly when \<open>v\<close> is \<^verbatim>\<open>"person_id"\<close>; otherwise it
  returns \<^verbatim>\<open>{aggregationQuery: v}\<close>, also when \<open>v\<close> is undefined or the empty string. In
  particular \<^verbatim>\<open>"$group_3"\<close> gives index 3, \<^verbatim>\<open>"$group_12"\<close> gives index 12 and
  \<^verbatim>\<open>""\<close> gives \<^verbatim>\<open>{aggregationQuery: ""}\<close>.
\<close>

theorem hogQLToFilterValue_cases:
  "((\<exists>N. hogQLToFilterValue v = Inr \<lparr>groupIndex = Present N, aggregationQuery = Absent\<rparr>)
      \<longleftrightarrow> (\<exists>ds. v = Some (''$group_'' @ ds) \<and> ds \<noteq> [] \<and> list_all is_digit ds))
   \<and> (ds \<noteq> [] \<and> list_all is_digit ds \<longrightarrow>
        hogQLToFilterValue (Some (''$group_'' @ ds))
          = Inr \<lparr>groupIndex = Present (parseInt ds), aggregationQuery = Absent\<rparr>)
   \<and> (ds \<noteq> [] \<and> list_all is_digit ds \<and> radix_value 10 ds < 2 ^ 53 \<longrightarrow>
        parseInt ds = Num (int (radix_value 10 ds)))
   \<and> (hogQLToFilterValue v = Inr \<lparr>groupIndex = Absent, aggregationQuery = Absent\<rparr>
      \<longleftrightarrow> v = Some ''person_id'')
   \<and> (\<not> optional_match_group v \<and> v \<noteq> Some ''person_id'' \<longrightarrow>
        hogQLToFilterValue v = Inr \<lparr>groupIndex = Absent, aggregationQuery = Present v\<rparr>)
   \<and> hogQLToFilterValue (Some ''$group_3'')
        = Inr \<lparr>groupIndex = Present (Num 3), aggregationQuery = Absent\<rparr>
   \<and> hogQLToFilterValue (Some ''$group_12'')
        = Inr \<lparr>groupIndex = Present (Num 12), aggregationQuery = Absent\<rparr>
   \<and> hogQLToFilterValue (Some [])
        = Inr \<lparr>groupIndex = Absent, aggregationQuery = Present (Some [])\<rparr>
   \<and> hogQLToFilterValue None
        = Inr \<lparr>groupIndex = Absent, aggregationQuery = Present None\<rparr>"
proof (intro conjI)
  show "(\<exists>N. hogQLToFilterValue v = Inr \<lparr>groupIndex = Present N, aggregationQuery = Absent\<rparr>)
      \<longleftrightarrow> (\<exists>ds. v = Some (''$group_'' @ ds) \<and> ds \<noteq> [] \<and> list_all is_digit ds)"
  proof (cases v)
    case None
    then show ?thesis by (simp add: hogQLToFilterValue_None)
  next
    case (Some s)
    then show ?thesis
      by (simp add: hogQLToFilterValue_Some_cases match_group_iff)
  qed
next
  show "ds \<noteq> [] \<and> list_all is_digit ds \<longrightarrow>
        hogQLToFilterValue (Some (''$group_'' @ ds))
          = Inr \<lparr>groupIndex = Present (parseInt ds), aggregationQuery = Absent\<rparr>"
  proof
    assume "ds \<noteq> [] \<and> list_all is_digit ds"
    then have 1: "ds \<noteq> []" and 2: "list_all is_digit ds" by simp_all
    show "hogQLToFilterValue (Some (''$group_'' @ ds))
          = Inr \<lparr>groupIndex = Present (parseInt ds), aggregationQuery = Absent\<rparr>"
      by (rule hogQLToFilterValue_group [OF 1 2])
  qed
next
  show "ds \<noteq> [] \<and> list_all is_digit ds \<and> radix_value 10 ds < 2 ^ 53 \<longrightarrow>
        parseInt ds = Num (int (radix_value 10 ds))"
    using parseInt_digits_exact [of ds] by blast
next
  show "hogQLToFilterValue v = Inr \<lparr>groupIndex = Absent, aggregationQuery = Absent\<rparr>
      \<longleftrightarrow> v = Some ''person_id''"
  proof (cases v)
    case None
    then show ?thesis by (simp add: hogQLToFilterValue_None)
  next
    case (Some s)
    then show ?thesis
      by (simp add: hogQLToFilterValue_Some_cases person_id_no_match)
  qed
next
  show "\<not> optional_match_group v \<and> v \<noteq> Some ''person_id'' \<longrightarrow>
        hogQLToFilterValue v = Inr \<lparr>groupIndex = Absent, aggregationQuery = Present v\<rparr>"
    by (simp add: hogQLToFilterValue_no_match)
next
  show "hogQLToFilterValue (Some ''$group_3'')
        = Inr \<lparr>groupIndex = Present (Num 3), aggregationQuery = Absent\<rparr>"
    by (simp add: decode_literal)
next
  show "hogQLToFilterValue (Some ''$group_12'')
        = Inr \<lparr>groupIndex = Present (Num 12), aggregationQuery = Absent\<rparr>"
    by (rule decode_group_12)
next
  show "hogQLToFilterValue (Some [])
        = Inr \<lparr>groupIndex = Absent, aggregationQuery = Present (Some [])\<rparr>"
    by (simp add: decode_literal)
next
  show "hogQLToFilterValue None
        = Inr \<lparr>groupIndex = Absent, aggregationQuery = Present None\<rparr>"
    by (rule hogQLToFilterValue_None)
qed

theorem hogQLToFilterValue_cases_witness:
  "hogQLToFilterValue (Some ''$group_42'')
     = Inr \<lparr>groupIndex = Present (Num 42), aggregationQuery = Absent\<rparr>
   \<and> hogQLToFilterValue (Some ''properties.$session_id'')
     = Inr \<lparr>groupIndex = Absent, aggregationQuery = Present (Some ''properties.$session_id'')\<rparr>"
proof -
  have a: "''42'' \<noteq> [] \<and> list_all is_digit ''42''" by (simp add: is_digit_def)
  have c: "radix_value 10 ''42'' = 42" by (simp add: radix_value_def digit_of_def)
  have a': "''42'' \<noteq> [] \<and> list_all is_digit ''42'' \<and> radix_value 10 ''42'' < 2 ^ 53"
    using a c by simp
  have b: "\<not> optional_match_group (Some ''properties.$session_id'')
           \<and> Some ''properties.$session_id'' \<noteq> Some ''person_id''"
    by (simp add: optional_match_group_def match_group_def)
  show ?thesis
    using hogQLToFilterValue_cases [of "Some ''properties.$session_id''" "''42''"] a a' b c
    by simp
qed

text \<open>
  C4, as the specification states it: \<^verbatim>\<open>hogQLToFilterValue\<close> never fails, and a group
  index it returns is a well-formed non-negative integer. The digit pattern puts no bound
  on the number of digits, and \<^verbatim>\<open>parseInt\<close> returns \<^verbatim>\<open>Infinity\<close> for a run of digits
  whose value is beyond the largest double (about \<open>1.8 \<times> 10^308\<close>): for \<^verbatim>\<open>$group_1\<close>
  followed by 309 zeros the index is \<^verbatim>\<open>Infinity\<close>, which is not an integer.
\<close>

theorem hogQLToFilterValue_infinity_counterexample:
  "hogQLToFilterValue (Some (''$group_1'' @ replicate 309 (CHR ''0'')))
   = Inr \<lparr>groupIndex = Present Infinity, aggregationQuery = Absent\<rparr>"
proof -
  let ?ds = "''1'' @ replicate 309 (CHR ''0'')"
  have 1: "?ds \<noteq> []" by simp
  have 2: "list_all is_digit ?ds" by (simp add: is_digit_def list_all_iff)
  have "radix_value 10 ?ds = radix_value 10 ''1'' * 10 ^ 309"
    by (rule radix_value_zeros)
  also have "radix_value 10 ''1'' = 1" by (simp add: radix_value_def digit_of_def)
  finally have "radix_value 10 ?ds = 10 ^ 309" by simp
  moreover have "(2::nat) ^ 1024 \<le> 10 ^ 309" by simp
  ultimately have 3: "2 ^ 1024 \<le> radix_value 10 ?ds" by (simp only:)
  have "hogQLToFilterValue (Some (''$group_'' @ ?ds))
        = Inr \<lparr>groupIndex = Present Infinity, aggregationQuery = Absent\<rparr>"
    using hogQLToFilterValue_group [OF 1 2] parseInt_digits_overflow [OF 1 2 3]
    by (simp only:)
  then show ?thesis by simp
qed

text \<open>
  C4, amended: \<^verbatim>\<open>hogQLToFilterValue\<close> never fails: for every input string, and for the
  undefined input, it returns a descriptor (the \<^verbatim>\<open>replace\<close> call is reached with a
  defined string only). A group index it returns is a non-negative integer or
  \<^verbatim>\<open>Infinity\<close>, never \<^verbatim>\<open>NaN\<close> and never negative, since \<^verbatim>\<open>parseInt\<close> is applied to a
  non-empty run of digits only. The index is the decimal value of the digits when that
  value is below \<open>2^53\<close>, as it is for every run of at most 15 digits, and it is
  \<^verbatim>\<open>Infinity\<close> when the value is \<open>2^1024\<close> or more.
\<close>

theorem hogQLToFilterValue_total:
  "(\<exists>d. hogQLToFilterValue v = Inr d
        \<and> (groupIndex d = Absent \<or> (\<exists>k::nat. groupIndex d = Present (Num (int k)))
           \<or> groupIndex d = Present Infinity))
   \<and> (ds \<noteq> [] \<and> list_all is_digit ds
        \<and> (radix_value 10 ds < 2 ^ 53 \<or> length ds \<le> 15) \<longrightarrow>
        hogQLToFilterValue (Some (''$group_'' @ ds))
          = Inr \<lparr>groupIndex = Present (Num (int (radix_value 10 ds))),
                 aggregationQuery = Absent\<rparr>)
   \<and> (ds \<noteq> [] \<and> list_all is_digit ds \<and> 2 ^ 1024 \<le> radix_value 10 ds \<longrightarrow>
        hogQLToFilterValue (Some (''$group_'' @ ds))
          = Inr \<lparr>groupIndex = Present Infinity, aggregationQuery = Absent\<rparr>)"
proof (intro conjI impI)
  show "\<exists>d. hogQLToFilterValue v = Inr d
        \<and> (groupIndex d = Absent \<or> (\<exists>k::nat. groupIndex d = Present (Num (int k)))
           \<or> groupIndex d = Present Infinity)"
  proof (cases v)
    case None
    then show ?thesis by (simp add: hogQLToFilterValue_None)
  next
    case (Some s)
    show ?thesis
    proof (cases "match_group s")
      case True
      then have "drop 7 s \<noteq> []" "list_all is_digit (drop 7 s)"
        by (simp_all add: match_group_def)
      then show ?thesis
        using parseInt_digits_cases [of "drop 7 s"] True Some
        by (auto simp: hogQLToFilterValue_Some_cases)
    next
      case False
      then show ?thesis using Some by (simp add: hogQLToFilterValue_Some_cases)
    qed
  qed
next
  assume h: "ds \<noteq> [] \<and> list_all is_digit ds
        \<and> (radix_value 10 ds < 2 ^ 53 \<or> length ds \<le> 15)"
  then have 1: "ds \<noteq> []" and 2: "list_all is_digit ds" by simp_all
  have 3: "radix_value 10 ds < 2 ^ 53"
  proof (cases "radix_value 10 ds < 2 ^ 53")
    case True
    then show ?thesis .
  next
    case False
    then have "length ds \<le> 15" using h by blast
    then have "(10::nat) ^ length ds \<le> 10 ^ 15" by (intro power_increasing) simp_all
    then have "radix_value 10 ds < 10 ^ 15"
      using radix_value_less [OF 2] by linarith
    then show ?thesis by simp
  qed
  show "hogQLToFilterValue (Some (''$group_'' @ ds))
          = Inr \<lparr>groupIndex = Present (Num (int (radix_value 10 ds))),
                 aggregationQuery = Absent\<rparr>"
    using hogQLToFilterValue_group [OF 1 2] parseInt_digits_exact [OF 1 2 3] by (simp only:)
next
  assume "ds \<noteq> [] \<and> list_all is_digit ds \<and> 2 ^ 1024 \<le> radix_value 10 ds"
  then have 1: "ds \<noteq> []" and 2: "list_all is_digit ds" and 3: "2 ^ 1024 \<le> radix_value 10 ds"
    by simp_all
  show "hogQLToFilterValue (Some (''$group_'' @ ds))
          = Inr \<lparr>groupIndex = Present Infinity, aggregationQuery = Absent\<rparr>"
    using hogQLToFilterValue_group [OF 1 2] parseInt_digits_overflow [OF 1 2 3] by (simp only:)
qed

theorem hogQLToFilterValue_total_witness:
  "hogQLToFilterValue (Some ''$group_4'')
     = Inr \<lparr>groupIndex = Present (Num 4), aggregationQuery = Absent\<rparr>
   \<and> hogQLToFilterValue (Some (''$group_'' @ ''2'' @ replicate 400 (CHR ''0'')))
     = Inr \<lparr>groupIndex = Present Infinity, aggregationQuery = Absent\<rparr>"
proof -
  have a: "''4'' \<noteq> [] \<and> list_all is_digit ''4''
           \<and> (radix_value 10 ''4'' < 2 ^ 53 \<or> length ''4'' \<le> 15)"
    by (simp add: is_digit_def)
  have v: "radix_value 10 ''4'' = 4" by (simp add: radix_value_def digit_of_def)
  let ?ds = "''2'' @ replicate 400 (CHR ''0'')"
  have "radix_value 10 ?ds = radix_value 10 ''2'' * 10 ^ 400"
    by (rule radix_value_zeros)
  also have "radix_value 10 ''2'' = 2" by (simp add: radix_value_def digit_of_def)
  finally have "radix_value 10 ?ds = 2 * 10 ^ 400" by simp
  moreover have "(2::nat) ^ 1024 \<le> 2 * 10 ^ 400" by simp
  ultimately have big: "2 ^ 1024 \<le> radix_value 10 ?ds" by (simp only:)
  have b: "?ds \<noteq> [] \<and> list_all is_digit ?ds \<and> 2 ^ 1024 \<le> radix_value 10 ?ds"
    using big by (simp add: is_digit_def list_all_iff)
  have 1: "hogQLToFilterValue (Some ''$group_4'')
     = Inr \<lparr>groupIndex = Present (Num 4), aggregationQuery = Absent\<rparr>"
    using hogQLToFilterValue_total [of _ "''4''"] a v by simp
  have 2: "hogQLToFilterValue (Some (''$group_'' @ ?ds))
     = Inr \<lparr>groupIndex = Present Infinity, aggregationQuery = Absent\<rparr>"
    using hogQLToFilterValue_total [of _ ?ds] b by blast
  show ?thesis using 1 2 by blast
qed

text \<open>
  C5. In every descriptor \<^verbatim>\<open>hogQLToFilterValue\<close> returns, at most one of
  \<^verbatim>\<open>groupIndex\<close> and \<^verbatim>\<open>aggregationQuery\<close> is present (and at most one is defined when
  read), and both are absent exactly when the input is \<^verbatim>\<open>"person_id"\<close>, for which the
  result is \<^verbatim>\<open>{}\<close>. For the undefined input the result is
  \<^verbatim>\<open>{aggregationQuery: undefined}\<close>: the property is present and its value undefined,
  so that both fields read as undefined for the inputs \<^verbatim>\<open>"person_id"\<close> and
  \<^verbatim>\<open>undefined\<close>, and for no other.
\<close>

theorem hogQLToFilterValue_at_most_one:
  "(\<exists>d. hogQLToFilterValue v = Inr d
        \<and> (groupIndex d = Absent \<or> aggregationQuery d = Absent)
        \<and> (read_groupIndex d = None \<or> read_aggregationQuery d = None)
        \<and> ((groupIndex d = Absent \<and> aggregationQuery d = Absent) \<longleftrightarrow> v = Some ''person_id'')
        \<and> ((read_groupIndex d = None \<and> read_aggregationQuery d = None)
             \<longleftrightarrow> (v = Some ''person_id'' \<or> v = None)))
   \<and> hogQLToFilterValue (Some ''person_id'')
        = Inr \<lparr>groupIndex = Absent, aggregationQuery = Absent\<rparr>"
proof (cases v)
  case None
  then show ?thesis
    by (simp add: hogQLToFilterValue_None hogQLToFilterValue_Some_cases person_id_no_match
        read_groupIndex_def read_aggregationQuery_def)
next
  case (Some s)
  then show ?thesis
    by (simp add: hogQLToFilterValue_Some_cases person_id_no_match read_groupIndex_def
        read_aggregationQuery_def)
qed

text \<open>
  C9. For every non-empty string \<open>s\<close> that is not \<^verbatim>\<open>"person_id"\<close> and is not
  \<^verbatim>\<open>$group_\<close> followed by one or more digits, encoding the fields of the decoded \<open>s\<close>
  returns \<open>s\<close>: the decoded fields are an undefined group index and the query \<open>s\<close>, and
  \<^verbatim>\<open>getHogQLValue(undefined, s)\<close> is \<open>s\<close>. This does not extend to all strings: the
  empty string comes back as \<^verbatim>\<open>"person_id"\<close> and \<^verbatim>\<open>"$group_007"\<close> as \<^verbatim>\<open>"$group_7"\<close>.
\<close>

theorem encode_decode_string_round_trip:
  "(s \<noteq> [] \<and> s \<noteq> ''person_id'' \<and> \<not> match_group s \<longrightarrow>
      (\<exists>d. hogQLToFilterValue (Some s) = Inr d
           \<and> read_groupIndex d = None \<and> read_aggregationQuery d = Some s
           \<and> getHogQLValue (read_groupIndex d) (read_aggregationQuery d) = s)
      \<and> getHogQLValue None (Some s) = s)
   \<and> (\<exists>d. hogQLToFilterValue (Some []) = Inr d
           \<and> getHogQLValue (read_groupIndex d) (read_aggregationQuery d) = ''person_id'')
   \<and> (\<exists>d. hogQLToFilterValue (Some ''$group_007'') = Inr d
           \<and> getHogQLValue (read_groupIndex d) (read_aggregationQuery d) = ''$group_7'')"
proof (intro conjI impI)
  assume s: "s \<noteq> [] \<and> s \<noteq> ''person_id'' \<and> \<not> match_group s"
  then show "\<exists>d. hogQLToFilterValue (Some s) = Inr d
           \<and> read_groupIndex d = None \<and> read_aggregationQuery d = Some s
           \<and> getHogQLValue (read_groupIndex d) (read_aggregationQuery d) = s"
    by (simp add: hogQLToFilterValue_Some_cases read_groupIndex_def read_aggregationQuery_def
        getHogQLValue_def)
  show "getHogQLValue None (Some s) = s" using s by (simp add: getHogQLValue_def)
next
  have "hogQLToFilterValue (Some [])
        = Inr \<lparr>groupIndex = Absent, aggregationQuery = Present (Some [])\<rparr>"
    by (simp add: decode_literal)
  then show "\<exists>d. hogQLToFilterValue (Some []) = Inr d
           \<and> getHogQLValue (read_groupIndex d) (read_aggregationQuery d) = ''person_id''"
    by (simp add: read_groupIndex_def read_aggregationQuery_def getHogQLValue_def
        UNIQUE_USERS_def)
next
  have a: "hogQLToFilterValue (Some ''$group_007'')
        = Inr \<lparr>groupIndex = Present (Num 7), aggregationQuery = Absent\<rparr>"
    by (simp add: decode_literal)
  have b: "getHogQLValue (Some (Num 7)) None = ''$group_7''"
    by (simp only: getHogQLValue_Some number_toString_small) simp
  show "\<exists>d. hogQLToFilterValue (Some ''$group_007'') = Inr d
           \<and> getHogQLValue (read_groupIndex d) (read_aggregationQuery d) = ''$group_7''"
    using a b by (simp add: read_groupIndex_def read_aggregationQuery_def)
qed

theorem encode_decode_string_round_trip_witness:
  "(\<exists>d. hogQLToFilterValue (Some ''distinct_id'') = Inr d
       \<and> read_groupIndex d = None \<and> read_aggregationQuery d = Some ''distinct_id''
       \<and> getHogQLValue (read_groupIndex d) (read_aggregationQuery d) = ''distinct_id'')
   \<and> getHogQLValue None (Some ''distinct_id'') = ''distinct_id''"
proof -
  have h: "''distinct_id'' \<noteq> [] \<and> ''distinct_id'' \<noteq> ''person_id'' \<and> \<not> match_group ''distinct_id''"
    by (simp add: match_group_def)
  show ?thesis
    using encode_decode_string_round_trip [of "''distinct_id''"] h by blast
qed

section \<open>Properties of the component and of the binding wrappers\<close>

text \<open>
  C8. The value of the custom-expression option is the empty string when the current
  selector is absent or is one of the fixed values, and the current selector otherwise.
  The fixed values are \<^verbatim>\<open>"person_id"\<close>, the tokens \<^verbatim>\<open>$group_N\<close> of the group types when
  they are offered (neither access flag set), and \<^verbatim>\<open>"properties.$session_id"\<close> when
  \<^verbatim>\<open>hogqlAvailable\<close> is true.

  The token of a group type is the prefix followed by its index as JavaScript prints it:
  for an offered index \<open>i\<close> that is a non-negative integer below \<open>2^53\<close>, the selector
  \<^verbatim>\<open>$group_\<close> followed by the decimal digits of \<open>i\<close> gives the empty string. With the
  group types 0, 1 and 2 the fixed values are \<^verbatim>\<open>person_id\<close>, \<^verbatim>\<open>$group_0\<close>, \<^verbatim>\<open>$group_1\<close>,
  \<^verbatim>\<open>$group_2\<close> and the session token, in this order; \<^verbatim>\<open>$group_1\<close> then gives the empty
  string, and \<^verbatim>\<open>$group_7\<close>, or \<^verbatim>\<open>$group_1\<close> when an access flag is set, gives the selector
  itself. The token of the index \<open>10^21\<close> is \<^verbatim>\<open>$group_1e+21\<close>.
\<close>

theorem custom_option_value_cases:
  "custom_option_value nu cs gts ha None = []
   \<and> custom_option_value nu cs gts ha (Some s)
       = (if s \<in> set (baseValues nu cs gts ha) then [] else s)
   \<and> set (baseValues nu cs gts ha)
       = {''person_id''}
         \<union> (if nu \<or> cs then {}
            else (\<lambda>t. ''$group_'' @ number_toString (group_type_index t)) ` set gts)
         \<union> (if ha = Some True then {''properties.$session_id''} else {})
   \<and> (\<forall>t\<in>set gts. \<forall>i.
        \<not> nu \<and> \<not> cs \<and> group_type_index t = Num i \<and> 0 \<le> i \<and> i < 2 ^ 53 \<longrightarrow>
          (\<exists>ds. ds \<noteq> [] \<and> list_all is_digit ds \<and> radix_value 10 ds = nat i
             \<and> (hd ds = CHR ''0'' \<longrightarrow> ds = ''0'')
             \<and> ''$group_'' @ ds \<in> set (baseValues nu cs gts ha)
             \<and> custom_option_value nu cs gts ha (Some (''$group_'' @ ds)) = []))
   \<and> baseValues False False
         [\<lparr>group_type_index = Num 0\<rparr>, \<lparr>group_type_index = Num 1\<rparr>,
          \<lparr>group_type_index = Num 2\<rparr>] (Some True)
       = [''person_id'', ''$group_0'', ''$group_1'', ''$group_2'', ''properties.$session_id'']
   \<and> baseValues False False
         [\<lparr>group_type_index = Num 0\<rparr>, \<lparr>group_type_index = Num 1\<rparr>,
          \<lparr>group_type_index = Num 2\<rparr>] None
       = [''person_id'', ''$group_0'', ''$group_1'', ''$group_2'']
   \<and> baseValues True False
         [\<lparr>group_type_index = Num 0\<rparr>, \<lparr>group_type_index = Num 1\<rparr>,
          \<lparr>group_type_index = Num 2\<rparr>] (Some True)
       = [''person_id'', ''properties.$session_id'']
   \<and> baseValues False True
         [\<lparr>group_type_index = Num 0\<rparr>, \<lparr>group_type_index = Num 1\<rparr>,
          \<lparr>group_type_index = Num 2\<rparr>] (Some False)
       = [''person_id'']
   \<and> custom_option_value False False
         [\<lparr>group_type_index = Num 0\<rparr>, \<lparr>group_type_index = Num 1\<rparr>,
          \<lparr>group_type_index = Num 2\<rparr>] (Some True) (Some ''$group_1'') = []
   \<and> custom_option_value False False
         [\<lparr>group_type_index = Num 0\<rparr>, \<lparr>group_type_index = Num 1\<rparr>,
          \<lparr>group_type_index = Num 2\<rparr>] (Some True) (Some ''$group_7'') = ''$group_7''
   \<and> custom_option_value True False
         [\<lparr>group_type_index = Num 0\<rparr>, \<lparr>group_type_index = Num 1\<rparr>,
          \<lparr>group_type_index = Num 2\<rparr>] (Some True) (Some ''$group_1'') = ''$group_1''
   \<and> custom_option_value False False
         [\<lparr>group_type_index = Num 0\<rparr>, \<lparr>group_type_index = Num 1\<rparr>,
          \<lparr>group_type_index = Num 2\<rparr>] (Some True) (Some ''person_id'') = []
   \<and> custom_option_value False False
         [\<lparr>group_type_index = Num 0\<rparr>, \<lparr>group_type_index = Num 1\<rparr>,
          \<lparr>group_type_index = Num 2\<rparr>] (Some True) (Some ''properties.$session_id'') = []
   \<and> custom_option_value False False
         [\<lparr>group_type_index = Num 0\<rparr>, \<lparr>group_type_index = Num 1\<rparr>,
          \<lparr>group_type_index = Num 2\<rparr>] None (Some ''properties.$session_id'')
       = ''properties.$session_id''
   \<and> custom_option_value False False
         [\<lparr>group_type_index = Num 0\<rparr>, \<lparr>group_type_index = Num 1\<rparr>,
          \<lparr>group_type_index = Num 2\<rparr>] (Some True) (Some ''distinct_id'') = ''distinct_id''
   \<and> custom_option_value False False [\<lparr>group_type_index = Num (10 ^ 21)\<rparr>] None
         (Some ''$group_1e+21'') = []
   \<and> custom_option_value False False [\<lparr>group_type_index = Num (10 ^ 21)\<rparr>] None
         (Some ''$group_1000000000000000000000'') = ''$group_1000000000000000000000''"
proof (intro conjI ballI allI impI)
  show "custom_option_value nu cs gts ha None = []"
    by (simp add: custom_option_value_def)
  show "custom_option_value nu cs gts ha (Some s)
       = (if s \<in> set (baseValues nu cs gts ha) then [] else s)"
    by (simp add: custom_option_value_def)
  show "set (baseValues nu cs gts ha)
       = {''person_id''}
         \<union> (if nu \<or> cs then {}
            else (\<lambda>t. ''$group_'' @ number_toString (group_type_index t)) ` set gts)
         \<union> (if ha = Some True then {''properties.$session_id''} else {})"
    by (simp add: baseValues_eq)
next
  fix t :: "'a groupType_scheme" and i
  assume t: "t \<in> set gts"
    and h: "\<not> nu \<and> \<not> cs \<and> group_type_index t = Num i \<and> 0 \<le> i \<and> i < 2 ^ 53"
  from h have "number_toString (group_type_index t) = decimal (nat i)"
    by (simp add: number_toString_safe)
  then have "''$group_'' @ decimal (nat i)
             \<in> (\<lambda>t. ''$group_'' @ number_toString (group_type_index t)) ` set gts"
    using t by (metis imageI)
  then have m: "''$group_'' @ decimal (nat i) \<in> set (baseValues nu cs gts ha)"
    using h by (simp add: baseValues_eq)
  then have "custom_option_value nu cs gts ha (Some (''$group_'' @ decimal (nat i))) = []"
    by (simp add: custom_option_value_def)
  with m show "\<exists>ds. ds \<noteq> [] \<and> list_all is_digit ds \<and> radix_value 10 ds = nat i
             \<and> (hd ds = CHR ''0'' \<longrightarrow> ds = ''0'')
             \<and> ''$group_'' @ ds \<in> set (baseValues nu cs gts ha)
             \<and> custom_option_value nu cs gts ha (Some (''$group_'' @ ds)) = []"
    using decimal_canonical [of "nat i"] by blast
next
  show "baseValues False False
         [\<lparr>group_type_index = Num 0\<rparr>, \<lparr>group_type_index = Num 1\<rparr>,
          \<lparr>group_type_index = Num 2\<rparr>] (Some True)
       = [''person_id'', ''$group_0'', ''$group_1'', ''$group_2'', ''properties.$session_id'']"
    by (simp add: baseValues_eq number_toString_small)
  show "baseValues False False
         [\<lparr>group_type_index = Num 0\<rparr>, \<lparr>group_type_index = Num 1\<rparr>,
          \<lparr>group_type_index = Num 2\<rparr>] None
       = [''person_id'', ''$group_0'', ''$group_1'', ''$group_2'']"
    by (simp add: baseValues_eq number_toString_small)
  show "baseValues True False
         [\<lparr>group_type_index = Num 0\<rparr>, \<lparr>group_type_index = Num 1\<rparr>,
          \<lparr>group_type_index = Num 2\<rparr>] (Some True)
       = [''person_id'', ''properties.$session_id'']"
    by (simp add: baseValues_eq)
  show "baseValues False True
         [\<lparr>group_type_index = Num 0\<rparr>, \<lparr>group_type_index = Num 1\<rparr>,
          \<lparr>group_type_index = Num 2\<rparr>] (Some False)
       = [''person_id'']"
    by (simp add: baseValues_eq)
  show "custom_option_value False False
         [\<lparr>group_type_index = Num 0\<rparr>, \<lparr>group_type_index = Num 1\<rparr>,
          \<lparr>group_type_index = Num 2\<rparr>] (Some True) (Some ''$group_1'') = []"
    by (simp add: custom_option_value_def baseValues_eq number_toString_small)
  show "custom_option_value False False
         [\<lparr>group_type_index = Num 0\<rparr>, \<lparr>group_type_index = Num 1\<rparr>,
          \<lparr>group_type_index = Num 2\<rparr>] (Some True) (Some ''$group_7'') = ''$group_7''"
    by (simp add: custom_option_value_def baseValues_eq number_toString_small)
  show "custom_option_value True False
         [\<lparr>group_type_index = Num 0\<rparr>, \<lparr>group_type_index = Num 1\<rparr>,
          \<lparr>group_type_index = Num 2\<rparr>] (Some True) (Some ''$group_1'') = ''$group_1''"
    by (simp add: custom_option_value_def baseValues_eq)
  show "custom_option_value False False
         [\<lparr>group_type_index = Num 0\<rparr>, \<lparr>group_type_index = Num 1\<rparr>,
          \<lparr>group_type_index = Num 2\<rparr>] (Some True) (Some ''person_id'') = []"
    by (simp add: custom_option_value_def baseValues_eq)
  show "custom_option_value False False
         [\<lparr>group_type_index = Num 0\<rparr>, \<lparr>group_type_index = Num 1\<rparr>,
          \<lparr>group_type_index = Num 2\<rparr>] (Some True) (Some ''properties.$session_id'') = []"
    by (simp add: custom_option_value_def baseValues_eq)
  show "custom_option_value False False
         [\<lparr>group_type_index = Num 0\<rparr>, \<lparr>group_type_index = Num 1\<rparr>,
          \<lparr>group_type_index = Num 2\<rparr>] None (Some ''properties.$session_id'')
       = ''properties.$session_id''"
    by (simp add: custom_option_value_def baseValues_eq number_toString_small)
  show "custom_option_value False False
         [\<lparr>group_type_index = Num 0\<rparr>, \<lparr>group_type_index = Num 1\<rparr>,
          \<lparr>group_type_index = Num 2\<rparr>] (Some True) (Some ''distinct_id'') = ''distinct_id''"
    by (simp add: custom_option_value_def baseValues_eq number_toString_small)
  have e21: "baseValues False False [\<lparr>group_type_index = Num (10 ^ 21)\<rparr>] None
             = [''person_id'', ''$group_1e+21'']"
    unfolding baseValues_eq
    by (simp only: list.map groupType.select_convs number_toString_large) simp
  show "custom_option_value False False [\<lparr>group_type_index = Num (10 ^ 21)\<rparr>] None
         (Some ''$group_1e+21'') = []"
    unfolding custom_option_value_def e21 by simp
  show "custom_option_value False False [\<lparr>group_type_index = Num (10 ^ 21)\<rparr>] None
         (Some ''$group_1000000000000000000000'') = ''$group_1000000000000000000000''"
    unfolding custom_option_value_def e21 by simp
qed

theorem custom_option_value_cases_witness:
  "\<exists>ds. ds \<noteq> [] \<and> list_all is_digit ds \<and> radix_value 10 ds = nat 1
      \<and> custom_option_value False False [\<lparr>group_type_index = Num 1\<rparr>] None
          (Some (''$group_'' @ ds)) = []"
proof -
  have "\<lparr>group_type_index = Num 1\<rparr> \<in> set [\<lparr>group_type_index = Num 1\<rparr>]"
    and "\<not> False \<and> \<not> False \<and> group_type_index \<lparr>group_type_index = Num 1\<rparr> = Num 1
         \<and> 0 \<le> (1::int) \<and> (1::int) < 2 ^ 53"
    by simp_all
  with custom_option_value_cases [where gts = "[\<lparr>group_type_index = Num 1\<rparr>]"
      and nu = False and cs = False and ha = None]
  show ?thesis by blast
qed

text \<open>
  C7, as the specification states it: an absent or \<^verbatim>\<open>null\<close> selection event dispatches
  nothing. The guard is \<^verbatim>\<open>newValue !== null\<close>, which \<^verbatim>\<open>undefined\<close> passes: an absent
  (undefined) new value is handed to the caller's \<^verbatim>\<open>onChange\<close>, which decodes it and
  writes to the store.
\<close>

theorem component_onChange_undefined_counterexample:
  "AggregationSelectComponent_onChange (AggregationSelect_onChange (\<lambda>filters. False) fmempty)
     (NotNull None)
   = Inr [SetFilters (fmupd ''aggregation_group_type_index'' JUndefined fmempty)]
   \<and> AggregationSelectComponent_onChange
       (AggregationSelectDataExploration_onChange (\<lambda>querySource. False) fmempty) (NotNull None)
   = Inr [UpdateQuerySource (fmupd ''aggregation_group_type_index'' JUndefined fmempty)]"
  by (simp add: AggregationSelectComponent_onChange_def AggregationSelect_onChange_def
      AggregationSelectDataExploration_onChange_def
      hogQLToFilterValue_None read_groupIndex_def read_aggregationQuery_def
      number_or_undefined_def own_properties_def)

text \<open>
  C7, amended: for every \<^verbatim>\<open>null\<close> selection event the caller's \<^verbatim>\<open>onChange\<close> is not
  invoked and no action is dispatched, whatever \<^verbatim>\<open>onChange\<close> is; every other new value,
  a string or \<^verbatim>\<open>undefined\<close>, is handed to \<^verbatim>\<open>onChange\<close> as it is.
\<close>

theorem component_onChange_null:
  "AggregationSelectComponent_onChange onChange Null = Inr []
   \<and> AggregationSelectComponent_onChange onChange (NotNull (Some s)) = onChange (Some s)
   \<and> AggregationSelectComponent_onChange onChange (NotNull None) = onChange None"
  by (simp add: AggregationSelectComponent_onChange_def)

text \<open>
  C6, as the specification states it: in both wrappers the aggregation expression is
  written into \<^verbatim>\<open>funnel_aggregate_by_hogql\<close> if and only if the query or filter is
  recognised as a funnel, and in the non-funnel branch the dispatched update contains no
  funnel field. The second part fails for \<^verbatim>\<open>AggregationSelect\<close>: its non-funnel branch
  passes \<^verbatim>\<open>{...filters, aggregation_group_type_index: groupIndex}\<close> to \<^verbatim>\<open>setFilters\<close>,
  and the spread copies a \<^verbatim>\<open>funnel_aggregate_by_hogql\<close> that the current filters carry.
  For retention filters with such a field and the selection \<^verbatim>\<open>$group_1\<close>, the dispatched
  object has the field.
\<close>

theorem onChange_stale_funnel_field_counterexample:
  "AggregationSelect_onChange
       (\<lambda>f. fmlookup f ''insight'' = Some (JString ''FUNNELS''))
       (fmupd ''funnel_aggregate_by_hogql'' (JString ''properties.$session_id'')
          (fmupd ''insight'' (JString ''RETENTION'') fmempty))
       (Some ''$group_1'')
     = Inr [SetFilters
         (fmupd ''aggregation_group_type_index'' (JNumber (Num 1))
            (fmupd ''funnel_aggregate_by_hogql'' (JString ''properties.$session_id'')
               (fmupd ''insight'' (JString ''RETENTION'') fmempty)))]
   \<and> fmlookup
         (fmupd ''aggregation_group_type_index'' (JNumber (Num 1))
            (fmupd ''funnel_aggregate_by_hogql'' (JString ''properties.$session_id'')
               (fmupd ''insight'' (JString ''RETENTION'') fmempty)))
         ''funnel_aggregate_by_hogql''
     = Some (JString ''properties.$session_id'')"
proof -
  have d: "hogQLToFilterValue (Some ''$group_1'')
           = Inr \<lparr>groupIndex = Present (Num 1), aggregationQuery = Absent\<rparr>"
    by (simp add: decode_literal)
  show ?thesis
    by (simp add: onChange_legacy_eq [OF d] read_groupIndex_def number_or_undefined_def)
qed

text \<open>
  C6, amended: in both wrappers the handler writes the aggregation expression into
  \<^verbatim>\<open>funnel_aggregate_by_hogql\<close> if and only if the query or filter is recognised as a
  funnel. \<^verbatim>\<open>AggregationSelectDataExploration\<close>: the object passed to
  \<^verbatim>\<open>updateQuerySource\<close> has a \<^verbatim>\<open>funnelsFilter\<close> property exactly for a funnel query, and
  then its \<^verbatim>\<open>funnel_aggregate_by_hogql\<close> is the decoded expression; otherwise the object is
  \<^verbatim>\<open>{aggregation_group_type_index: groupIndex}\<close> and nothing else, with no funnel field.
  \<^verbatim>\<open>AggregationSelect\<close>: for a funnel filter the object passed to \<^verbatim>\<open>setFilters\<close> has
  \<^verbatim>\<open>funnel_aggregate_by_hogql\<close> set to the decoded expression; otherwise it is the
  current filters with \<^verbatim>\<open>aggregation_group_type_index\<close> replaced and every other
  property unchanged, so that it has a \<^verbatim>\<open>funnel_aggregate_by_hogql\<close> only when the
  current filters have one, with the value it has there; for filters without the field,
  the object has it exactly for a funnel filter.
\<close>

theorem onChange_funnel_field:
  "(\<exists>d u. hogQLToFilterValue v = Inr d
      \<and> AggregationSelectDataExploration_onChange isFunnelsQuery querySource v
          = Inr [UpdateQuerySource u]
      \<and> (fmlookup u ''funnelsFilter'' \<noteq> None \<longleftrightarrow> isFunnelsQuery querySource)
      \<and> (isFunnelsQuery querySource \<longrightarrow>
           (\<exists>ff. fmlookup u ''funnelsFilter'' = Some (JObject ff)
              \<and> fmlookup ff ''funnel_aggregate_by_hogql''
                  = Some (string_or_undefined (read_aggregationQuery d))))
      \<and> (\<not> isFunnelsQuery querySource \<longrightarrow>
           u = fmupd ''aggregation_group_type_index''
                 (number_or_undefined (read_groupIndex d)) fmempty
           \<and> fmlookup u ''funnel_aggregate_by_hogql'' = None))
   \<and> (\<exists>d u. hogQLToFilterValue v = Inr d
      \<and> AggregationSelect_onChange isFunnelsFilter filters v = Inr [SetFilters u]
      \<and> (isFunnelsFilter filters \<longrightarrow>
           fmlookup u ''funnel_aggregate_by_hogql''
             = Some (string_or_undefined (read_aggregationQuery d)))
      \<and> (\<not> isFunnelsFilter filters \<longrightarrow>
           u = fmupd ''aggregation_group_type_index''
                 (number_or_undefined (read_groupIndex d)) filters
           \<and> (\<forall>k. k \<noteq> ''aggregation_group_type_index'' \<longrightarrow>
                 fmlookup u k = fmlookup filters k)
           \<and> fmlookup u ''funnel_aggregate_by_hogql''
               = fmlookup filters ''funnel_aggregate_by_hogql'')
      \<and> (fmlookup filters ''funnel_aggregate_by_hogql'' = None \<longrightarrow>
           (fmlookup u ''funnel_aggregate_by_hogql'' \<noteq> None \<longleftrightarrow> isFunnelsFilter filters)))"
proof -
  obtain d where d: "hogQLToFilterValue v = Inr d"
    using hogQLToFilterValue_returns by blast
  show ?thesis
  proof (intro conjI)
    show "\<exists>d u. hogQLToFilterValue v = Inr d
      \<and> AggregationSelectDataExploration_onChange isFunnelsQuery querySource v
          = Inr [UpdateQuerySource u]
      \<and> (fmlookup u ''funnelsFilter'' \<noteq> None \<longleftrightarrow> isFunnelsQuery querySource)
      \<and> (isFunnelsQuery querySource \<longrightarrow>
           (\<exists>ff. fmlookup u ''funnelsFilter'' = Some (JObject ff)
              \<and> fmlookup ff ''funnel_aggregate_by_hogql''
                  = Some (string_or_undefined (read_aggregationQuery d))))
      \<and> (\<not> isFunnelsQuery querySource \<longrightarrow>
           u = fmupd ''aggregation_group_type_index''
                 (number_or_undefined (read_groupIndex d)) fmempty
           \<and> fmlookup u ''funnel_aggregate_by_hogql'' = None)"
      using d by (simp add: onChange_DataExploration_eq [OF d])
    show "\<exists>d u. hogQLToFilterValue v = Inr d
      \<and> AggregationSelect_onChange isFunnelsFilter filters v = Inr [SetFilters u]
      \<and> (isFunnelsFilter filters \<longrightarrow>
           fmlookup u ''funnel_aggregate_by_hogql''
             = Some (string_or_undefined (read_aggregationQuery d)))
      \<and> (\<not> isFunnelsFilter filters \<longrightarrow>
           u = fmupd ''aggregation_group_type_index''
                 (number_or_undefined (read_groupIndex d)) filters
           \<and> (\<forall>k. k \<noteq> ''aggregation_group_type_index'' \<longrightarrow>
                 fmlookup u k = fmlookup filters k)
           \<and> fmlookup u ''funnel_aggregate_by_hogql''
               = fmlookup filters ''funnel_aggregate_by_hogql'')
      \<and> (fmlookup filters ''funnel_aggregate_by_hogql'' = None \<longrightarrow>
           (fmlookup u ''funnel_aggregate_by_hogql'' \<noteq> None \<longleftrightarrow> isFunnelsFilter filters))"
      using d by (simp add: onChange_legacy_eq [OF d])
  qed
qed

theorem onChange_funnel_field_witness:
  "(\<exists>u ff. AggregationSelectDataExploration_onChange
        (\<lambda>q. fmlookup q ''kind'' = Some (JString ''FunnelsQuery''))
        (fmupd ''kind'' (JString ''FunnelsQuery'') fmempty) (Some ''distinct_id'')
          = Inr [UpdateQuerySource u]
      \<and> fmlookup u ''funnelsFilter'' = Some (JObject ff)
      \<and> fmlookup ff ''funnel_aggregate_by_hogql'' = Some (JString ''distinct_id''))
   \<and> (\<exists>u. AggregationSelect_onChange
        (\<lambda>f. fmlookup f ''insight'' = Some (JString ''FUNNELS''))
        (fmupd ''insight'' (JString ''FUNNELS'') fmempty) (Some ''distinct_id'')
          = Inr [SetFilters u]
      \<and> fmlookup u ''funnel_aggregate_by_hogql'' = Some (JString ''distinct_id''))
   \<and> (\<exists>u. AggregationSelectDataExploration_onChange
        (\<lambda>q. fmlookup q ''kind'' = Some (JString ''FunnelsQuery''))
        (fmupd ''kind'' (JString ''RetentionQuery'') fmempty) (Some ''distinct_id'')
          = Inr [UpdateQuerySource u]
      \<and> fmlookup u ''funnelsFilter'' = None
      \<and> fmlookup u ''funnel_aggregate_by_hogql'' = None)
   \<and> (\<exists>u. AggregationSelect_onChange
        (\<lambda>f. fmlookup f ''insight'' = Some (JString ''FUNNELS''))
        (fmupd ''insight'' (JString ''RETENTION'') fmempty) (Some ''distinct_id'')
          = Inr [SetFilters u]
      \<and> fmlookup u ''funnel_aggregate_by_hogql'' = None)"
proof -
  have f: "(\<lambda>q. fmlookup q ''kind'' = Some (JString ''FunnelsQuery''))
             (fmupd ''kind'' (JString ''FunnelsQuery'') fmempty)"
          "(\<lambda>f. fmlookup f ''insight'' = Some (JString ''FUNNELS''))
             (fmupd ''insight'' (JString ''FUNNELS'') fmempty)"
    by simp_all
  have n: "\<not> (\<lambda>q. fmlookup q ''kind'' = Some (JString ''FunnelsQuery''))
             (fmupd ''kind'' (JString ''RetentionQuery'') fmempty)"
          "\<not> (\<lambda>f. fmlookup f ''insight'' = Some (JString ''FUNNELS''))
             (fmupd ''insight'' (JString ''RETENTION'') fmempty)"
    by simp_all
  show ?thesis
    using f n decode_distinct_id
      onChange_funnel_field [where v = "Some ''distinct_id''"
        and isFunnelsQuery = "\<lambda>q. fmlookup q ''kind'' = Some (JString ''FunnelsQuery'')"
        and querySource = "fmupd ''kind'' (JString ''FunnelsQuery'') fmempty"
        and isFunnelsFilter = "\<lambda>f. fmlookup f ''insight'' = Some (JString ''FUNNELS'')"
        and filters = "fmupd ''insight'' (JString ''FUNNELS'') fmempty"]
      onChange_funnel_field [where v = "Some ''distinct_id''"
        and isFunnelsQuery = "\<lambda>q. fmlookup q ''kind'' = Some (JString ''FunnelsQuery'')"
        and querySource = "fmupd ''kind'' (JString ''RetentionQuery'') fmempty"
        and isFunnelsFilter = "\<lambda>f. fmlookup f ''insight'' = Some (JString ''FUNNELS'')"
        and filters = "fmupd ''insight'' (JString ''RETENTION'') fmempty"]
    by (auto simp: read_aggregationQuery_def string_or_undefined_def)
qed




end
